theory Spec2Isabelle
  imports Main "HOL-Library.Word"
begin

section \<open>The libraclient package: ledger-state guard and transaction waiter\<close>

text \<open>
  A shallow embedding of \<^verbatim>\<open>libraclient/client.go\<close>. The client is used from one thread:
  the read/write lock \<^verbatim>\<open>mux\<close> is not modelled, and every function takes the client and
  returns the client it leaves behind. Go's \<^verbatim>\<open>uint64\<close> and \<^verbatim>\<open>byte\<close> are words, on which
  \<open>*\<close> and \<open>+\<close> wrap around and \<open><\<close> and \<open>\<le>\<close> compare unsigned; \<^verbatim>\<open>time.Duration\<close> is a
  64-bit word read as two's complement by \<open>sint\<close>.
\<close>

subsection \<open>Data\<close>

type_synonym byte = "8 word"
type_synonym uint64 = "64 word"

text \<open>\<^verbatim>\<open>time.Duration\<close>: an \<^verbatim>\<open>int64\<close> count of nanoseconds.\<close>

type_synonym Duration = "64 word"

text \<open>\<^verbatim>\<open>type LedgerState struct { TimestampUsec uint64; Version uint64 }\<close>\<close>

record LedgerState =
  TimestampUsec :: uint64
  Version :: uint64

text \<open>
  The types \<^verbatim>\<open>Transaction\<close> and \<^verbatim>\<open>VmStatus\<close> are declared in another file of the
  package; the records hold the fields that \<^verbatim>\<open>WaitForTransaction\<close> reads, both compared
  with strings: \<^verbatim>\<open>txn.Transaction.Signature\<close> and \<^verbatim>\<open>txn.VmStatus.Type\<close>.
\<close>

record VmStatus =
  Type :: string

record TransactionData =
  Signature :: string

record Transaction =
  Transaction :: TransactionData
  VmStatus :: VmStatus

text \<open>
  Go errors as values. The first three are the errors that package \<^verbatim>\<open>jsonrpc\<close> makes and
  the client hands on as they are: the error of \<^verbatim>\<open>rpc.Call\<close>, the \<^verbatim>\<open>Error\<close> member of a
  response, and the error of \<^verbatim>\<open>UnmarshalResult\<close>, each with its message. The others are the
  errors the client makes itself, with the values their messages are formatted from.
\<close>

datatype error =
    TransportError string
  | ResponseError string
  | UnmarshalError string
  | ChainIdMismatch byte byte
  | StaleResponse string uint64 uint64
  | SignatureMismatch
  | ExecutionFailed VmStatus
  | TransactionExpired
  | NotFoundWithinTimeout Duration

text \<open>
  \<^verbatim>\<open>jsonrpc.Response\<close>, as far as \<^verbatim>\<open>call\<close> uses it. The type is declared in package
  \<^verbatim>\<open>jsonrpc\<close>, outside \<^verbatim>\<open>client.go\<close>, so its members are read off their uses:
  \<^item> \<open>LibraChainID\<close> is an integer of a width that \<^verbatim>\<open>client.go\<close> does not show; \<^verbatim>\<open>call\<close>
    converts it with \<^verbatim>\<open>byte(...)\<close>, which keeps the low eight bits of any Go integer;
  \<^item> \<open>LibraLedgerTimestampusec\<close> and \<open>LibraLedgerVersion\<close> are assigned to the \<^verbatim>\<open>uint64\<close>
    members of a \<^verbatim>\<open>LedgerState\<close> without a conversion, so they are \<^verbatim>\<open>uint64\<close>;
  \<^item> \<open>Error\<close> is the message of the response's error, \<open>None\<close> for \<^verbatim>\<open>nil\<close>;
  \<^item> \<open>UnmarshalResult\<close> is the pair that \<^verbatim>\<open>resp.UnmarshalResult(ret)\<close> returns (the error
    as its message), and \<open>Result\<close> is what that call leaves in the variable \<^verbatim>\<open>ret\<close>
    points to.
  A Go variable declared by \<^verbatim>\<open>var ret T\<close> is an \<open>'r option\<close>: \<open>None\<close> while it holds the
  zero value of \<^verbatim>\<open>T\<close>, \<open>Some v\<close> once a value was decoded into it.
\<close>

record 'r Response =
  LibraChainID :: int
  LibraLedgerTimestampusec :: uint64
  LibraLedgerVersion :: uint64
  Error :: "string option"
  UnmarshalResult :: "bool \<times> string option"
  Result :: "'r option"

text \<open>
  What \<^verbatim>\<open>c.rpc.Call(req)\<close> gives for the request: an error (its message), or the response
  filed under the request's id, \<^verbatim>\<open>resps[req.ID]\<close>, which is taken to be there. The
  transport is outside the client; the model takes its answer as an argument, so a theorem
  about every answer covers every server.
\<close>

type_synonym 'r rpc_result = "string + 'r Response"

text \<open>
  \<^verbatim>\<open>type client struct { chainID byte; rpc jsonrpc.Client; mux sync.RWMutex; last LedgerState }\<close>.
  The field \<^verbatim>\<open>last\<close> is \<open>last'\<close> here.
\<close>

record client =
  chainID :: byte
  last' :: LedgerState

subsection \<open>The ledger-state guard\<close>

definition NewWithJsonRpcClient :: "byte \<Rightarrow> client" where
  "NewWithJsonRpcClient cid = \<lparr>chainID = cid, last' = \<lparr>TimestampUsec = 0, Version = 0\<rparr>\<rparr>"

definition LastResponseLedgerState :: "client \<Rightarrow> LedgerState" where
  "LastResponseLedgerState c = last' c"

definition UpdateLastResponseLedgerState :: "client \<Rightarrow> LedgerState \<Rightarrow> client" where
  "UpdateLastResponseLedgerState c state = c\<lparr>last' := state\<rparr>"

definition validateChainID :: "client \<Rightarrow> byte \<Rightarrow> error option" where
  "validateChainID c cid =
     (if chainID c \<noteq> cid then Some (ChainIdMismatch (chainID c) cid) else None)"

definition validateAndUpdateState :: "client \<Rightarrow> LedgerState \<Rightarrow> error option \<times> client" where
  "validateAndUpdateState c state =
     (let lst = LastResponseLedgerState c in
      if Version lst = Version state \<and> TimestampUsec lst = TimestampUsec state then (None, c)
      else if Version lst > Version state then
        (Some (StaleResponse ''version'' (Version lst) (Version state)), c)
      else if TimestampUsec lst > TimestampUsec state then
        (Some (StaleResponse ''timestamp(usec)'' (TimestampUsec lst) (TimestampUsec state)), c)
      else (None, UpdateLastResponseLedgerState c state))"

text \<open>
  \<^verbatim>\<open>func (c *client) call(method, ret, params...) (bool, error)\<close>. The method and the
  parameters only go into the request; \<open>out\<close> is what the transport answered. The result
  is the returned pair, the content of \<^verbatim>\<open>ret\<close> afterwards, and the client.
\<close>

definition call ::
  "client \<Rightarrow> 'r option \<Rightarrow> 'r rpc_result \<Rightarrow> (bool \<times> error option) \<times> 'r option \<times> client" where
  "call c ret out =
     (case out of
        Inl err \<Rightarrow> ((False, Some (TransportError err)), ret, c)
      | Inr resp \<Rightarrow>
          (case validateChainID c (word_of_int (LibraChainID resp)) of
             Some err \<Rightarrow> ((False, Some err), ret, c)
           | None \<Rightarrow>
               (case validateAndUpdateState c
                       \<lparr>TimestampUsec = LibraLedgerTimestampusec resp,
                        Version = LibraLedgerVersion resp\<rparr> of
                  (Some err, c') \<Rightarrow> ((False, Some err), ret, c')
                | (None, c') \<Rightarrow>
                    (case Error resp of
                       Some err \<Rightarrow> ((False, Some (ResponseError err)), ret, c')
                     | None \<Rightarrow>
                         (case UnmarshalResult resp of
                            (ok, err) \<Rightarrow>
                              ((ok, map_option UnmarshalError err), Result resp, c'))))))"

subsection \<open>The methods of the client\<close>

text \<open>
  Each method builds its request, runs \<open>call\<close> on a fresh variable \<^verbatim>\<open>ret\<close> and returns
  Go's pair of a value and an error. A method that returns \<^verbatim>\<open>&ret\<close> returns \<open>Some ret\<close>,
  a pointer that is not \<^verbatim>\<open>nil\<close>; a method that returns the slice \<^verbatim>\<open>ret\<close> returns \<open>ret\<close>
  itself, where \<open>None\<close> is the \<^verbatim>\<open>nil\<close> slice.
\<close>

type_synonym Address = string

definition GetCurrencies ::
  "client \<Rightarrow> 'r rpc_result \<Rightarrow> ('r option \<times> error option) \<times> client" where
  "GetCurrencies c out =
     (case call c None out of
        ((ok, err), ret, c') \<Rightarrow> if \<not> ok then ((None, err), c') else ((ret, None), c'))"

definition GetMetadata ::
  "client \<Rightarrow> 'r rpc_result \<Rightarrow> ('r option option \<times> error option) \<times> client" where
  "GetMetadata c out =
     (case call c None out of
        ((ok, err), ret, c') \<Rightarrow> if \<not> ok then ((None, err), c') else ((Some ret, None), c'))"

definition GetMetadataByVersion ::
  "client \<Rightarrow> uint64 \<Rightarrow> 'r rpc_result \<Rightarrow> ('r option option \<times> error option) \<times> client" where
  "GetMetadataByVersion c version out =
     (case call c None out of
        ((ok, err), ret, c') \<Rightarrow> if \<not> ok then ((None, err), c') else ((Some ret, None), c'))"

definition GetAccount ::
  "client \<Rightarrow> Address \<Rightarrow> 'r rpc_result \<Rightarrow> ('r option option \<times> error option) \<times> client" where
  "GetAccount c address out =
     (case call c None out of
        ((ok, err), ret, c') \<Rightarrow> if \<not> ok then ((None, err), c') else ((Some ret, None), c'))"

definition GetAccountTransaction ::
  "client \<Rightarrow> Address \<Rightarrow> uint64 \<Rightarrow> bool \<Rightarrow> 'r rpc_result \<Rightarrow>
     ('r option option \<times> error option) \<times> client" where
  "GetAccountTransaction c address sequenceNum includeEvent out =
     (case call c None out of
        ((ok, err), ret, c') \<Rightarrow> if \<not> ok then ((None, err), c') else ((Some ret, None), c'))"

definition GetAccountTransactions ::
  "client \<Rightarrow> Address \<Rightarrow> uint64 \<Rightarrow> uint64 \<Rightarrow> bool \<Rightarrow> 'r rpc_result \<Rightarrow>
     ('r option \<times> error option) \<times> client" where
  "GetAccountTransactions c address start limit includeEvent out =
     (case call c None out of
        ((ok, err), ret, c') \<Rightarrow> if err \<noteq> None then ((None, err), c') else ((ret, None), c'))"

definition GetTransactions ::
  "client \<Rightarrow> uint64 \<Rightarrow> uint64 \<Rightarrow> bool \<Rightarrow> 'r rpc_result \<Rightarrow>
     ('r option \<times> error option) \<times> client" where
  "GetTransactions c startVersion limit includeEvent out =
     (case call c None out of
        ((ok, err), ret, c') \<Rightarrow> if \<not> ok then ((None, err), c') else ((ret, None), c'))"

definition GetEvents ::
  "client \<Rightarrow> string \<Rightarrow> uint64 \<Rightarrow> uint64 \<Rightarrow> 'r rpc_result \<Rightarrow>
     ('r option \<times> error option) \<times> client" where
  "GetEvents c key start limit out =
     (case call c None out of
        ((ok, err), ret, c') \<Rightarrow> if \<not> ok then ((None, err), c') else ((ret, None), c'))"

text \<open>\<^verbatim>\<open>Submit\<close> passes \<^verbatim>\<open>nil\<close> for \<^verbatim>\<open>ret\<close> and returns the error alone.\<close>

definition Submit :: "client \<Rightarrow> string \<Rightarrow> 'r rpc_result \<Rightarrow> error option \<times> client" where
  "Submit c data out =
     (case call c None out of
        ((ok, err), ret, c') \<Rightarrow> if \<not> ok then (err, c') else (None, c'))"

subsection \<open>Waiting for a transaction\<close>

definition VmStatusExecuted :: string where
  "VmStatusExecuted = ''executed''"

text \<open>\<^verbatim>\<open>step := time.Millisecond * 500\<close>, in nanoseconds.\<close>

definition step :: Duration where
  "step = 1000000 * 500"

text \<open>
  The structure a pointer \<^verbatim>\<open>&ret\<close> to a \<^verbatim>\<open>Transaction\<close> variable points to: the decoded
  transaction, or the zero value (every string empty) when nothing was decoded.
\<close>

definition deref :: "Transaction option \<Rightarrow> Transaction" where
  "deref ret =
     (case ret of
        Some t \<Rightarrow> t
      | None \<Rightarrow> \<lparr>Transaction = \<lparr>Signature = []\<rparr>, VmStatus = \<lparr>Type = []\<rparr>\<rparr>)"

text \<open>
  The test of line 109, \<^verbatim>\<open>expirationTimeSec*1_000_000 <= c.LastResponseLedgerState().TimestampUsec\<close>,
  in \<^verbatim>\<open>uint64\<close> arithmetic.
\<close>

definition expired :: "uint64 \<Rightarrow> client \<Rightarrow> bool" where
  "expired expirationTimeSec c \<longleftrightarrow>
     expirationTimeSec * 1000000 \<le> TimestampUsec (LastResponseLedgerState c)"

text \<open>
  How a run of the polling loop ends. \<open>returned\<close> is the pair \<^verbatim>\<open>WaitForTransaction\<close>
  returns, or \<open>None\<close> when the loop is still polling after the last answer of the script.
  \<open>unread\<close> is the part of the script that no poll has asked for, and \<open>slept\<close> counts the
  calls of \<^verbatim>\<open>time.Sleep(step)\<close>.
\<close>

record wait_run =
  returned :: "(Transaction option option \<times> error option) option"
  client_after :: client
  unread :: "Transaction rpc_result list"
  slept :: nat

text \<open>
  The loop \<^verbatim>\<open>for i := time.Duration(0); i < timeout; i += step\<close> from the counter \<open>i\<close>.
  The script holds the transport's answers to the lookups to come, one for each poll. The
  counter is an \<^verbatim>\<open>int64\<close>: \<open>i + step\<close> wraps around and the comparison is signed.
\<close>

fun WaitLoop ::
  "client \<Rightarrow> Address \<Rightarrow> uint64 \<Rightarrow> string \<Rightarrow> uint64 \<Rightarrow> Duration \<Rightarrow> Duration \<Rightarrow>
     Transaction rpc_result list \<Rightarrow> nat \<Rightarrow> wait_run" where
  "WaitLoop c address seq signature expirationTimeSec timeout i script n =
     (if \<not> sint i < sint timeout then
        \<lparr>returned = Some (None, Some (NotFoundWithinTimeout timeout)),
         client_after = c, unread = script, slept = n\<rparr>
      else
        (case script of
           [] \<Rightarrow> \<lparr>returned = None, client_after = c, unread = [], slept = n\<rparr>
         | out # rest \<Rightarrow>
             (case GetAccountTransaction c address seq True out of
                ((txn, err), c') \<Rightarrow>
                  if err \<noteq> None then
                    \<lparr>returned = Some (None, err), client_after = c', unread = rest, slept = n\<rparr>
                  else
                    (case txn of
                       Some ret \<Rightarrow>
                         if Signature (Transaction (deref ret)) \<noteq> signature then
                           \<lparr>returned = Some (None, Some SignatureMismatch),
                            client_after = c', unread = rest, slept = n\<rparr>
                         else if Type (VmStatus (deref ret)) \<noteq> VmStatusExecuted then
                           \<lparr>returned = Some (None, Some (ExecutionFailed (VmStatus (deref ret)))),
                            client_after = c', unread = rest, slept = n\<rparr>
                         else
                           \<lparr>returned = Some (txn, None),
                            client_after = c', unread = rest, slept = n\<rparr>
                     | None \<Rightarrow>
                         if expired expirationTimeSec c' then
                           \<lparr>returned = Some (None, Some TransactionExpired),
                            client_after = c', unread = rest, slept = n\<rparr>
                         else
                           WaitLoop c' address seq signature expirationTimeSec timeout
                             (i + step) rest (Suc n)))))"

declare WaitLoop.simps [simp del]

definition WaitForTransaction ::
  "client \<Rightarrow> Address \<Rightarrow> uint64 \<Rightarrow> string \<Rightarrow> uint64 \<Rightarrow> Duration \<Rightarrow>
     Transaction rpc_result list \<Rightarrow> wait_run" where
  "WaitForTransaction c address seq signature expirationTimeSec timeout script =
     WaitLoop c address seq signature expirationTimeSec timeout 0 script 0"

subsection \<open>The notions the properties are stated with\<close>

text \<open>One ledger state is not behind another: neither its version nor its timestamp is smaller.\<close>

definition state_le :: "LedgerState \<Rightarrow> LedgerState \<Rightarrow> bool" where
  "state_le a b \<longleftrightarrow> Version a \<le> Version b \<and> TimestampUsec a \<le> TimestampUsec b"

text \<open>
  The states the client stores after each of a sequence of updates through
  \<open>validateAndUpdateState\<close>, rejected ones included.
\<close>

fun stored_states :: "client \<Rightarrow> LedgerState list \<Rightarrow> LedgerState list" where
  "stored_states c [] = []"
| "stored_states c (state # states) =
     (case validateAndUpdateState c state of
        (err, c') \<Rightarrow> last' c' # stored_states c' states)"

text \<open>The ledger state that \<open>call\<close> builds from the metadata of a response.\<close>

definition candidate :: "'r Response \<Rightarrow> LedgerState" where
  "candidate resp =
     \<lparr>TimestampUsec = LibraLedgerTimestampusec resp, Version = LibraLedgerVersion resp\<rparr>"

text \<open>
  The validation gate as the design describes it (section 4.1, \<^verbatim>\<open>validateAndAdvance\<close>): the
  chain identity is checked first, then the candidate is compared with the stored state.
  In the code these are the two checks that \<open>call\<close> makes one after the other.
\<close>

definition validateAndAdvance :: "client \<Rightarrow> byte \<Rightarrow> LedgerState \<Rightarrow> error option \<times> client" where
  "validateAndAdvance c cid state =
     (case validateChainID c cid of
        Some err \<Rightarrow> (Some err, c)
      | None \<Rightarrow> validateAndUpdateState c state)"

text \<open>
  A poll after which the loop sleeps and goes on: the lookup gave no error and no
  transaction, and the stored timestamp has not reached the expiration.
\<close>

definition keeps_polling ::
  "uint64 \<Rightarrow> client \<Rightarrow> Address \<Rightarrow> uint64 \<Rightarrow> Transaction rpc_result \<Rightarrow> bool" where
  "keeps_polling expirationTimeSec c address seq out \<longleftrightarrow>
     (case GetAccountTransaction c address seq True out of
        ((txn, err), c') \<Rightarrow> err = None \<and> txn = None \<and> \<not> expired expirationTimeSec c')"

text \<open>The client after the lookups that a list of answers was given to.\<close>

fun after_polls :: "client \<Rightarrow> Address \<Rightarrow> uint64 \<Rightarrow> Transaction rpc_result list \<Rightarrow> client" where
  "after_polls c address seq [] = c"
| "after_polls c address seq (out # outs) =
     after_polls (snd (GetAccountTransaction c address seq True out)) address seq outs"

text \<open>
  The interface \<^verbatim>\<open>Client\<close> (lines 30 to 49) as a datatype: one constructor for each method,
  with the method's arguments and what the transport answers during the invocation.
  \<open>invoke\<close> is the client that the invocation leaves behind, \<open>run\<close> a sequence of them.
\<close>

datatype 'r invocation =
    CallGetCurrencies "'r rpc_result"
  | CallGetMetadata "'r rpc_result"
  | CallGetMetadataByVersion uint64 "'r rpc_result"
  | CallGetAccount Address "'r rpc_result"
  | CallGetAccountTransaction Address uint64 bool "'r rpc_result"
  | CallGetAccountTransactions Address uint64 uint64 bool "'r rpc_result"
  | CallGetTransactions uint64 uint64 bool "'r rpc_result"
  | CallGetEvents string uint64 uint64 "'r rpc_result"
  | CallSubmit string "'r rpc_result"
  | CallWaitForTransaction Address uint64 string uint64 Duration "Transaction rpc_result list"
  | CallLastResponseLedgerState
  | CallUpdateLastResponseLedgerState LedgerState

fun invoke :: "'r invocation \<Rightarrow> client \<Rightarrow> client" where
  "invoke (CallGetCurrencies out) c = snd (GetCurrencies c out)"
| "invoke (CallGetMetadata out) c = snd (GetMetadata c out)"
| "invoke (CallGetMetadataByVersion version out) c = snd (GetMetadataByVersion c version out)"
| "invoke (CallGetAccount address out) c = snd (GetAccount c address out)"
| "invoke (CallGetAccountTransaction address sequenceNum includeEvent out) c =
     snd (GetAccountTransaction c address sequenceNum includeEvent out)"
| "invoke (CallGetAccountTransactions address start limit includeEvent out) c =
     snd (GetAccountTransactions c address start limit includeEvent out)"
| "invoke (CallGetTransactions startVersion limit includeEvent out) c =
     snd (GetTransactions c startVersion limit includeEvent out)"
| "invoke (CallGetEvents key start limit out) c = snd (GetEvents c key start limit out)"
| "invoke (CallSubmit data out) c = snd (Submit c data out)"
| "invoke (CallWaitForTransaction address seq signature expirationTimeSec timeout script) c =
     client_after (WaitForTransaction c address seq signature expirationTimeSec timeout script)"
| "invoke CallLastResponseLedgerState c = c"
| "invoke (CallUpdateLastResponseLedgerState state) c = UpdateLastResponseLedgerState c state"

fun run :: "client \<Rightarrow> 'r invocation list \<Rightarrow> client" where
  "run c [] = c"
| "run c (iv # ivs) = run (invoke iv c) ivs"

text \<open>The invocations of every method but \<^verbatim>\<open>UpdateLastResponseLedgerState\<close>.\<close>

fun guarded :: "'r invocation \<Rightarrow> bool" where
  "guarded (CallUpdateLastResponseLedgerState state) = False"
| "guarded iv = True"

text \<open>
  The loop of \<open>WaitForTransaction\<close> makes its poll number \<open>k\<close>, counted from 0, and the
  answer \<open>script ! k\<close> is given to it: the counter is below the timeout at that poll, and
  at each poll before it, after which the loop slept and went on.
\<close>

definition reaches_poll ::
  "client \<Rightarrow> Address \<Rightarrow> uint64 \<Rightarrow> uint64 \<Rightarrow> Duration \<Rightarrow> Transaction rpc_result list \<Rightarrow>
     nat \<Rightarrow> bool" where
  "reaches_poll c address seq expirationTimeSec timeout script k \<longleftrightarrow>
     k < length script \<and> sint (of_nat k * step) < sint timeout \<and>
     (\<forall>j\<in>{..<k}. sint (of_nat j * step) < sint timeout \<and>
        keeps_polling expirationTimeSec (after_polls c address seq (take j script))
          address seq (script ! j))"

subsection \<open>Values for the examples\<close>

text \<open>
  Answers of a server of chain 2 to a lookup: no transaction under the account and
  sequence number (the result is null, so \<^verbatim>\<open>UnmarshalResult\<close> reports \<^verbatim>\<open>false\<close> and no
  error), and a transaction with a signature and a status.
\<close>

definition not_found :: "uint64 \<Rightarrow> uint64 \<Rightarrow> Transaction rpc_result" where
  "not_found timestamp version =
     Inr \<lparr>LibraChainID = 2, LibraLedgerTimestampusec = timestamp,
          LibraLedgerVersion = version, Error = None, UnmarshalResult = (False, None),
          Result = None\<rparr>"

definition found :: "string \<Rightarrow> string \<Rightarrow> uint64 \<Rightarrow> uint64 \<Rightarrow> Transaction rpc_result" where
  "found sig status timestamp version =
     Inr \<lparr>LibraChainID = 2, LibraLedgerTimestampusec = timestamp,
          LibraLedgerVersion = version, Error = None, UnmarshalResult = (True, None),
          Result = Some \<lparr>Transaction = \<lparr>Signature = sig\<rparr>, VmStatus = \<lparr>Type = status\<rparr>\<rparr>\<rparr>"

text \<open>A client of chain 2 that has seen version 5 at timestamp 100.\<close>

definition seen_100_5 :: client where
  "seen_100_5 = \<lparr>chainID = 2, last' = \<lparr>TimestampUsec = 100, Version = 5\<rparr>\<rparr>"

text \<open>
  A client of chain 2 whose stored timestamp is 1600000000000000 microseconds, a moment in
  September 2020.
\<close>

definition far_seen :: client where
  "far_seen = \<lparr>chainID = 2, last' = \<lparr>TimestampUsec = 1600000000000000, Version = 1\<rparr>\<rparr>"

section \<open>Properties\<close>

subsection \<open>The guard\<close>

lemma validate_cases:
  "validateAndUpdateState c state =
     (if Version state < Version (last' c) then
        (Some (StaleResponse ''version'' (Version (last' c)) (Version state)), c)
      else if TimestampUsec state < TimestampUsec (last' c) then
        (Some (StaleResponse ''timestamp(usec)'' (TimestampUsec (last' c)) (TimestampUsec state)), c)
      else (None, c\<lparr>last' := state\<rparr>))"
  by (auto simp: validateAndUpdateState_def LastResponseLedgerState_def
      UpdateLastResponseLedgerState_def Let_def)

lemma state_le_refl: "state_le a a"
  by (simp add: state_le_def)

lemma state_le_trans: "state_le a b \<Longrightarrow> state_le b c \<Longrightarrow> state_le a c"
  by (auto simp: state_le_def)

lemma validate_le: "state_le (last' c) (last' (snd (validateAndUpdateState c state)))"
  by (auto simp: validate_cases state_le_def)

lemma validate_chainID: "chainID (snd (validateAndUpdateState c state)) = chainID c"
  by (simp add: validate_cases)

lemma advance_le: "state_le (last' c) (last' (snd (validateAndAdvance c cid state)))"
  by (simp add: validateAndAdvance_def validate_le state_le_refl split: option.split)

subsection \<open>The call path and the methods\<close>

text \<open>\<open>call\<close> is the gate, then the response's error, then the decoder.\<close>

lemma call_Inl: "call c ret (Inl msg) = ((False, Some (TransportError msg)), ret, c)"
  by (simp add: call_def)

lemma call_gate:
  "call c ret (Inr resp) =
     (case validateAndAdvance c (word_of_int (LibraChainID resp)) (candidate resp) of
        (Some err, c') \<Rightarrow> ((False, Some err), ret, c')
      | (None, c') \<Rightarrow>
          (case Error resp of
             Some msg \<Rightarrow> ((False, Some (ResponseError msg)), ret, c')
           | None \<Rightarrow>
               ((fst (UnmarshalResult resp), map_option UnmarshalError (snd (UnmarshalResult resp))),
                Result resp, c')))"
  by (simp add: call_def validateAndAdvance_def candidate_def split: option.split prod.split)

lemma call_client:
  "snd (snd (call c ret out)) =
     (case out of Inl msg \<Rightarrow> c
      | Inr resp \<Rightarrow> snd (validateAndAdvance c (word_of_int (LibraChainID resp)) (candidate resp)))"
  by (cases out) (auto simp: call_Inl call_gate split: option.split prod.split)

lemma call_le: "state_le (last' c) (last' (snd (snd (call c ret out))))"
  by (cases out) (simp_all add: call_client advance_le state_le_refl)

lemma advance_Some_client:
  "validateAndAdvance c cid state = (Some e, c') \<Longrightarrow> c' = c"
  by (auto simp: validateAndAdvance_def validate_cases split: option.splits if_splits)

lemma advance_None_last:
  "validateAndAdvance c cid state = (None, c') \<Longrightarrow> c' = c\<lparr>last' := state\<rparr>"
  by (auto simp: validateAndAdvance_def validate_cases split: option.splits if_splits)

lemma GetCurrencies_Inl: "GetCurrencies c (Inl msg) = ((None, Some (TransportError msg)), c)"
  by (simp add: GetCurrencies_def call_Inl)

lemma GetCurrencies_rejected:
  "validateAndAdvance c (word_of_int (LibraChainID resp)) (candidate resp) = (Some e, c') \<Longrightarrow>
     GetCurrencies c (Inr resp) = ((None, Some e), c')"
  by (simp add: GetCurrencies_def call_gate)

lemma GetCurrencies_accepted:
  "validateAndAdvance c (word_of_int (LibraChainID resp)) (candidate resp) = (None, c') \<Longrightarrow>
     snd (GetCurrencies c (Inr resp)) = c' \<and>
     (Error resp = Some msg \<longrightarrow> GetCurrencies c (Inr resp) = ((None, Some (ResponseError msg)), c'))"
  by (simp add: GetCurrencies_def call_gate split: option.split)

lemma GetCurrencies_client: "snd (GetCurrencies c out) = snd (snd (call c None out))"
  by (simp add: GetCurrencies_def split: prod.split)

lemma GetMetadata_Inl: "GetMetadata c (Inl msg) = ((None, Some (TransportError msg)), c)"
  by (simp add: GetMetadata_def call_Inl)

lemma GetMetadata_rejected:
  "validateAndAdvance c (word_of_int (LibraChainID resp)) (candidate resp) = (Some e, c') \<Longrightarrow>
     GetMetadata c (Inr resp) = ((None, Some e), c')"
  by (simp add: GetMetadata_def call_gate)

lemma GetMetadata_accepted:
  "validateAndAdvance c (word_of_int (LibraChainID resp)) (candidate resp) = (None, c') \<Longrightarrow>
     snd (GetMetadata c (Inr resp)) = c' \<and>
     (Error resp = Some msg \<longrightarrow> GetMetadata c (Inr resp) = ((None, Some (ResponseError msg)), c'))"
  by (simp add: GetMetadata_def call_gate split: option.split)

lemma GetMetadata_client: "snd (GetMetadata c out) = snd (snd (call c None out))"
  by (simp add: GetMetadata_def split: prod.split)

lemma GetMetadataByVersion_Inl: "GetMetadataByVersion c version (Inl msg) = ((None, Some (TransportError msg)), c)"
  by (simp add: GetMetadataByVersion_def call_Inl)

lemma GetMetadataByVersion_rejected:
  "validateAndAdvance c (word_of_int (LibraChainID resp)) (candidate resp) = (Some e, c') \<Longrightarrow>
     GetMetadataByVersion c version (Inr resp) = ((None, Some e), c')"
  by (simp add: GetMetadataByVersion_def call_gate)

lemma GetMetadataByVersion_accepted:
  "validateAndAdvance c (word_of_int (LibraChainID resp)) (candidate resp) = (None, c') \<Longrightarrow>
     snd (GetMetadataByVersion c version (Inr resp)) = c' \<and>
     (Error resp = Some msg \<longrightarrow> GetMetadataByVersion c version (Inr resp) = ((None, Some (ResponseError msg)), c'))"
  by (simp add: GetMetadataByVersion_def call_gate split: option.split)

lemma GetMetadataByVersion_client: "snd (GetMetadataByVersion c version out) = snd (snd (call c None out))"
  by (simp add: GetMetadataByVersion_def split: prod.split)

lemma GetAccount_Inl: "GetAccount c address (Inl msg) = ((None, Some (TransportError msg)), c)"
  by (simp add: GetAccount_def call_Inl)

lemma GetAccount_rejected:
  "validateAndAdvance c (word_of_int (LibraChainID resp)) (candidate resp) = (Some e, c') \<Longrightarrow>
     GetAccount c address (Inr resp) = ((None, Some e), c')"
  by (simp add: GetAccount_def call_gate)

lemma GetAccount_accepted:
  "validateAndAdvance c (word_of_int (LibraChainID resp)) (candidate resp) = (None, c') \<Longrightarrow>
     snd (GetAccount c address (Inr resp)) = c' \<and>
     (Error resp = Some msg \<longrightarrow> GetAccount c address (Inr resp) = ((None, Some (ResponseError msg)), c'))"
  by (simp add: GetAccount_def call_gate split: option.split)

lemma GetAccount_client: "snd (GetAccount c address out) = snd (snd (call c None out))"
  by (simp add: GetAccount_def split: prod.split)

lemma GetAccountTransaction_Inl: "GetAccountTransaction c address sequenceNum includeEvent (Inl msg) = ((None, Some (TransportError msg)), c)"
  by (simp add: GetAccountTransaction_def call_Inl)

lemma GetAccountTransaction_rejected:
  "validateAndAdvance c (word_of_int (LibraChainID resp)) (candidate resp) = (Some e, c') \<Longrightarrow>
     GetAccountTransaction c address sequenceNum includeEvent (Inr resp) = ((None, Some e), c')"
  by (simp add: GetAccountTransaction_def call_gate)

lemma GetAccountTransaction_accepted:
  "validateAndAdvance c (word_of_int (LibraChainID resp)) (candidate resp) = (None, c') \<Longrightarrow>
     snd (GetAccountTransaction c address sequenceNum includeEvent (Inr resp)) = c' \<and>
     (Error resp = Some msg \<longrightarrow> GetAccountTransaction c address sequenceNum includeEvent (Inr resp) = ((None, Some (ResponseError msg)), c'))"
  by (simp add: GetAccountTransaction_def call_gate split: option.split)

lemma GetAccountTransaction_client: "snd (GetAccountTransaction c address sequenceNum includeEvent out) = snd (snd (call c None out))"
  by (simp add: GetAccountTransaction_def split: prod.split)

lemma GetAccountTransactions_Inl: "GetAccountTransactions c address start limit includeEvent (Inl msg) = ((None, Some (TransportError msg)), c)"
  by (simp add: GetAccountTransactions_def call_Inl)

lemma GetAccountTransactions_rejected:
  "validateAndAdvance c (word_of_int (LibraChainID resp)) (candidate resp) = (Some e, c') \<Longrightarrow>
     GetAccountTransactions c address start limit includeEvent (Inr resp) = ((None, Some e), c')"
  by (simp add: GetAccountTransactions_def call_gate)

lemma GetAccountTransactions_accepted:
  "validateAndAdvance c (word_of_int (LibraChainID resp)) (candidate resp) = (None, c') \<Longrightarrow>
     snd (GetAccountTransactions c address start limit includeEvent (Inr resp)) = c' \<and>
     (Error resp = Some msg \<longrightarrow> GetAccountTransactions c address start limit includeEvent (Inr resp) = ((None, Some (ResponseError msg)), c'))"
  by (simp add: GetAccountTransactions_def call_gate split: option.split)

lemma GetAccountTransactions_client: "snd (GetAccountTransactions c address start limit includeEvent out) = snd (snd (call c None out))"
  by (simp add: GetAccountTransactions_def split: prod.split)

lemma GetTransactions_Inl: "GetTransactions c startVersion limit includeEvent (Inl msg) = ((None, Some (TransportError msg)), c)"
  by (simp add: GetTransactions_def call_Inl)

lemma GetTransactions_rejected:
  "validateAndAdvance c (word_of_int (LibraChainID resp)) (candidate resp) = (Some e, c') \<Longrightarrow>
     GetTransactions c startVersion limit includeEvent (Inr resp) = ((None, Some e), c')"
  by (simp add: GetTransactions_def call_gate)

lemma GetTransactions_accepted:
  "validateAndAdvance c (word_of_int (LibraChainID resp)) (candidate resp) = (None, c') \<Longrightarrow>
     snd (GetTransactions c startVersion limit includeEvent (Inr resp)) = c' \<and>
     (Error resp = Some msg \<longrightarrow> GetTransactions c startVersion limit includeEvent (Inr resp) = ((None, Some (ResponseError msg)), c'))"
  by (simp add: GetTransactions_def call_gate split: option.split)

lemma GetTransactions_client: "snd (GetTransactions c startVersion limit includeEvent out) = snd (snd (call c None out))"
  by (simp add: GetTransactions_def split: prod.split)

lemma GetEvents_Inl: "GetEvents c key start limit (Inl msg) = ((None, Some (TransportError msg)), c)"
  by (simp add: GetEvents_def call_Inl)

lemma GetEvents_rejected:
  "validateAndAdvance c (word_of_int (LibraChainID resp)) (candidate resp) = (Some e, c') \<Longrightarrow>
     GetEvents c key start limit (Inr resp) = ((None, Some e), c')"
  by (simp add: GetEvents_def call_gate)

lemma GetEvents_accepted:
  "validateAndAdvance c (word_of_int (LibraChainID resp)) (candidate resp) = (None, c') \<Longrightarrow>
     snd (GetEvents c key start limit (Inr resp)) = c' \<and>
     (Error resp = Some msg \<longrightarrow> GetEvents c key start limit (Inr resp) = ((None, Some (ResponseError msg)), c'))"
  by (simp add: GetEvents_def call_gate split: option.split)

lemma GetEvents_client: "snd (GetEvents c key start limit out) = snd (snd (call c None out))"
  by (simp add: GetEvents_def split: prod.split)

lemma Submit_Inl: "Submit c data (Inl msg) = (Some (TransportError msg), c)"
  by (simp add: Submit_def call_Inl)

lemma Submit_rejected:
  "validateAndAdvance c (word_of_int (LibraChainID resp)) (candidate resp) = (Some e, c') \<Longrightarrow>
     Submit c data (Inr resp) = (Some e, c')"
  by (simp add: Submit_def call_gate)

lemma Submit_accepted:
  "validateAndAdvance c (word_of_int (LibraChainID resp)) (candidate resp) = (None, c') \<Longrightarrow>
     snd (Submit c data (Inr resp)) = c' \<and>
     (Error resp = Some msg \<longrightarrow> Submit c data (Inr resp) = (Some (ResponseError msg), c'))"
  by (simp add: Submit_def call_gate split: option.split)

lemma Submit_client: "snd (Submit c data out) = snd (snd (call c None out))"
  by (simp add: Submit_def split: prod.split)


subsection \<open>The polling loop\<close>

lemma WaitLoop_timeout:
  "\<not> sint i < sint timeout \<Longrightarrow>
     WaitLoop c address seq signature expirationTimeSec timeout i script n =
       \<lparr>returned = Some (None, Some (NotFoundWithinTimeout timeout)),
        client_after = c, unread = script, slept = n\<rparr>"
  by (subst WaitLoop.simps) simp

lemma WaitLoop_Nil:
  "sint i < sint timeout \<Longrightarrow>
     WaitLoop c address seq signature expirationTimeSec timeout i [] n =
       \<lparr>returned = None, client_after = c, unread = [], slept = n\<rparr>"
  by (subst WaitLoop.simps) simp

lemma WaitLoop_error:
  assumes "sint i < sint timeout"
    and "GetAccountTransaction c address seq True out = ((txn, Some e), c')"
  shows "WaitLoop c address seq signature expirationTimeSec timeout i (out # rest) n =
       \<lparr>returned = Some (None, Some e), client_after = c', unread = rest, slept = n\<rparr>"
  using assms by (subst WaitLoop.simps) simp

lemma WaitLoop_found:
  assumes "sint i < sint timeout"
    and "GetAccountTransaction c address seq True out = ((Some ret, None), c')"
  shows "WaitLoop c address seq signature expirationTimeSec timeout i (out # rest) n =
       \<lparr>returned =
          Some (if Signature (Transaction (deref ret)) \<noteq> signature
                then (None, Some SignatureMismatch)
                else if Type (VmStatus (deref ret)) \<noteq> VmStatusExecuted
                then (None, Some (ExecutionFailed (VmStatus (deref ret))))
                else (Some ret, None)),
        client_after = c', unread = rest, slept = n\<rparr>"
  using assms by (subst WaitLoop.simps) simp

lemma WaitLoop_expired:
  assumes "sint i < sint timeout"
    and "GetAccountTransaction c address seq True out = ((None, None), c')"
    and "expired expirationTimeSec c'"
  shows "WaitLoop c address seq signature expirationTimeSec timeout i (out # rest) n =
       \<lparr>returned = Some (None, Some TransactionExpired),
        client_after = c', unread = rest, slept = n\<rparr>"
  using assms by (subst WaitLoop.simps) simp

lemma WaitLoop_sleep:
  assumes "sint i < sint timeout"
    and "GetAccountTransaction c address seq True out = ((None, None), c')"
    and "\<not> expired expirationTimeSec c'"
  shows "WaitLoop c address seq signature expirationTimeSec timeout i (out # rest) n =
       WaitLoop c' address seq signature expirationTimeSec timeout (i + step) rest (Suc n)"
  using assms by (subst WaitLoop.simps) simp

lemma WaitLoop_keeps_polling:
  assumes "sint i < sint timeout"
    and "keeps_polling expirationTimeSec c address seq out"
  shows "WaitLoop c address seq signature expirationTimeSec timeout i (out # rest) n =
       WaitLoop (snd (GetAccountTransaction c address seq True out)) address seq signature
         expirationTimeSec timeout (i + step) rest (Suc n)"
proof -
  obtain txn err c' where g: "GetAccountTransaction c address seq True out = ((txn, err), c')"
    by (metis surj_pair)
  with assms(2) have "txn = None" "err = None" "\<not> expired expirationTimeSec c'"
    by (simp_all add: keeps_polling_def)
  with g assms(1) show ?thesis
    by (simp add: WaitLoop_sleep)
qed


lemma call_error_kinds:
  "fst (call c ret out) = (ok, Some e) \<Longrightarrow> e \<noteq> NotFoundWithinTimeout t"
  by (cases out)
    (auto simp: call_def validateChainID_def validate_cases
      split: option.splits if_splits prod.splits)

lemma lookup_error_kinds:
  "GetAccountTransaction c address seq b out = ((txn, Some e), c') \<Longrightarrow>
     e \<noteq> NotFoundWithinTimeout t"
  using call_error_kinds [of c None out _ e t]
  by (auto simp: GetAccountTransaction_def split: prod.splits if_splits)

text \<open>A poll that does not keep polling ends the loop, and not with the timeout error.\<close>

lemma WaitLoop_stops:
  assumes "sint i < sint timeout"
    and "\<not> keeps_polling expirationTimeSec c address seq out"
  shows "\<exists>r. WaitLoop c address seq signature expirationTimeSec timeout i (out # rest) n =
            \<lparr>returned = Some r,
             client_after = snd (GetAccountTransaction c address seq True out),
             unread = rest, slept = n\<rparr>
          \<and> (\<forall>t. r \<noteq> (None, Some (NotFoundWithinTimeout t)))"
proof -
  obtain txn err c' where g: "GetAccountTransaction c address seq True out = ((txn, err), c')"
    by (metis surj_pair)
  show ?thesis
  proof (cases err)
    case (Some e)
    with g assms(1) lookup_error_kinds [of c address seq True out txn e c'] show ?thesis
      by (simp add: WaitLoop_error)
  next
    case None
    note errNone = this
    show ?thesis
    proof (cases txn)
      case (Some ret)
      with g assms(1) errNone show ?thesis
        by (simp add: WaitLoop_found)
    next
      case None
      with g errNone assms(2) have "expired expirationTimeSec c'"
        by (simp add: keeps_polling_def)
      with g assms(1) errNone None show ?thesis
        by (simp add: WaitLoop_expired)
    qed
  qed
qed

lemma slept_mono:
  "n \<le> slept (WaitLoop c address seq signature expirationTimeSec timeout i script n)"
proof (induction script arbitrary: c i n)
  case Nil
  then show ?case
    by (cases "sint i < sint timeout") (simp_all add: WaitLoop_timeout WaitLoop_Nil)
next
  case (Cons out rest)
  consider (timeout) "\<not> sint i < sint timeout"
    | (goes_on) "sint i < sint timeout" "keeps_polling expirationTimeSec c address seq out"
    | (stops) "sint i < sint timeout" "\<not> keeps_polling expirationTimeSec c address seq out"
    by blast
  then show ?case
  proof cases
    case timeout
    then show ?thesis by (simp add: WaitLoop_timeout)
  next
    case goes_on
    then show ?thesis
      using Cons.IH [where c = "snd (GetAccountTransaction c address seq True out)"
          and i = "i + step" and n = "Suc n"]
      by (simp add: WaitLoop_keeps_polling)
  next
    case stops
    from WaitLoop_stops [OF this, of signature rest n] show ?thesis
      by auto
  qed
qed

lemma lookup_le:
  "state_le (last' c) (last' (snd (GetAccountTransaction c address seq b out)))"
  by (simp add: GetAccountTransaction_client call_le)

lemma WaitLoop_le:
  "state_le (last' c)
     (last' (client_after (WaitLoop c address seq signature expirationTimeSec timeout i script n)))"
proof (induction script arbitrary: c i n)
  case Nil
  then show ?case
    by (cases "sint i < sint timeout") (simp_all add: WaitLoop_timeout WaitLoop_Nil state_le_refl)
next
  case (Cons out rest)
  consider (timeout) "\<not> sint i < sint timeout"
    | (goes_on) "sint i < sint timeout" "keeps_polling expirationTimeSec c address seq out"
    | (stops) "sint i < sint timeout" "\<not> keeps_polling expirationTimeSec c address seq out"
    by blast
  then show ?case
  proof cases
    case timeout
    then show ?thesis by (simp add: WaitLoop_timeout state_le_refl)
  next
    case goes_on
    then show ?thesis
      using Cons.IH [where c = "snd (GetAccountTransaction c address seq True out)"
          and i = "i + step" and n = "Suc n"]
        state_le_trans [OF lookup_le [of c address seq True out]]
      by (simp add: WaitLoop_keeps_polling)
  next
    case stops
    from WaitLoop_stops [OF this, of signature rest n] lookup_le [of c address seq True out]
    show ?thesis
      by auto
  qed
qed

lemma WaitLoop_skip:
  assumes "k \<le> length script"
    and "\<forall>j<k. sint (i + of_nat j * step) < sint timeout \<and>
           keeps_polling expirationTimeSec (after_polls c address seq (take j script))
             address seq (script ! j)"
  shows "WaitLoop c address seq signature expirationTimeSec timeout i script n =
         WaitLoop (after_polls c address seq (take k script)) address seq signature
           expirationTimeSec timeout (i + of_nat k * step) (drop k script) (n + k)"
  using assms
proof (induction k arbitrary: c i script n)
  case 0
  then show ?case by simp
next
  case (Suc k)
  then obtain out rest where script: "script = out # rest"
    by (cases script) auto
  from Suc.prems(2) have first: "sint i < sint timeout"
    "keeps_polling expirationTimeSec c address seq out"
    using script by (auto dest: spec [of _ 0])
  have later: "\<forall>j<k. sint (i + step + of_nat j * step) < sint timeout \<and>
      keeps_polling expirationTimeSec
        (after_polls (snd (GetAccountTransaction c address seq True out)) address seq (take j rest))
        address seq (rest ! j)"
  proof (intro allI impI)
    fix j assume "j < k"
    then have "Suc j < Suc k" by simp
    with Suc.prems(2) have "sint (i + of_nat (Suc j) * step) < sint timeout \<and>
           keeps_polling expirationTimeSec (after_polls c address seq (take (Suc j) script))
             address seq (script ! Suc j)"
      by blast
    then show "sint (i + step + of_nat j * step) < sint timeout \<and>
      keeps_polling expirationTimeSec
        (after_polls (snd (GetAccountTransaction c address seq True out)) address seq (take j rest))
        address seq (rest ! j)"
      by (simp add: script algebra_simps)
  qed
  from Suc.prems(1) have len: "k \<le> length rest"
    by (simp add: script)
  show ?case
    using Suc.IH [OF len later, of "Suc n"] first
    by (simp add: script WaitLoop_keeps_polling algebra_simps)
qed

lemma timed_out_polls:
  assumes "returned (WaitLoop c address seq signature expirationTimeSec timeout i script n) =
             Some (None, Some (NotFoundWithinTimeout t))"
  shows "\<exists>k\<le>length script.
           (\<forall>j<k. sint (i + of_nat j * step) < sint timeout \<and>
              keeps_polling expirationTimeSec (after_polls c address seq (take j script))
                address seq (script ! j)) \<and>
           \<not> sint (i + of_nat k * step) < sint timeout \<and>
           WaitLoop c address seq signature expirationTimeSec timeout i script n =
             \<lparr>returned = Some (None, Some (NotFoundWithinTimeout timeout)),
              client_after = after_polls c address seq (take k script),
              unread = drop k script, slept = n + k\<rparr>"
  using assms
proof (induction script arbitrary: c i n)
  case Nil
  show ?case
  proof (cases "sint i < sint timeout")
    case True
    with Nil show ?thesis by (simp add: WaitLoop_Nil)
  next
    case False
    then show ?thesis by (simp add: WaitLoop_timeout)
  qed
next
  case (Cons out rest)
  consider (timeout) "\<not> sint i < sint timeout"
    | (goes_on) "sint i < sint timeout" "keeps_polling expirationTimeSec c address seq out"
    | (stops) "sint i < sint timeout" "\<not> keeps_polling expirationTimeSec c address seq out"
    by blast
  then show ?case
  proof cases
    case timeout
    then have "(\<forall>j<(0::nat). sint (i + of_nat j * step) < sint timeout \<and>
              keeps_polling expirationTimeSec (after_polls c address seq (take j (out # rest)))
                address seq ((out # rest) ! j)) \<and>
           \<not> sint (i + of_nat (0::nat) * step) < sint timeout \<and>
           WaitLoop c address seq signature expirationTimeSec timeout i (out # rest) n =
             \<lparr>returned = Some (None, Some (NotFoundWithinTimeout timeout)),
              client_after = after_polls c address seq (take 0 (out # rest)),
              unread = drop 0 (out # rest), slept = n + 0\<rparr>"
      by (simp add: WaitLoop_timeout)
    then show ?thesis by blast
  next
    case stops
    from WaitLoop_stops [OF this, of signature rest n] Cons.prems show ?thesis
      by auto
  next
    case goes_on
    let ?c' = "snd (GetAccountTransaction c address seq True out)"
    have eq: "WaitLoop c address seq signature expirationTimeSec timeout i (out # rest) n =
        WaitLoop ?c' address seq signature expirationTimeSec timeout (i + step) rest (Suc n)"
      using goes_on by (simp add: WaitLoop_keeps_polling)
    with Cons.prems have "returned (WaitLoop ?c' address seq signature expirationTimeSec timeout
        (i + step) rest (Suc n)) = Some (None, Some (NotFoundWithinTimeout t))"
      by simp
    from Cons.IH [OF this] obtain k where k: "k \<le> length rest"
      "\<forall>j<k. sint (i + step + of_nat j * step) < sint timeout \<and>
              keeps_polling expirationTimeSec (after_polls ?c' address seq (take j rest))
                address seq (rest ! j)"
      "\<not> sint (i + step + of_nat k * step) < sint timeout"
      "WaitLoop ?c' address seq signature expirationTimeSec timeout (i + step) rest (Suc n) =
             \<lparr>returned = Some (None, Some (NotFoundWithinTimeout timeout)),
              client_after = after_polls ?c' address seq (take k rest),
              unread = drop k rest, slept = Suc n + k\<rparr>"
      by blast
    have all: "\<forall>j<Suc k. sint (i + of_nat j * step) < sint timeout \<and>
              keeps_polling expirationTimeSec (after_polls c address seq (take j (out # rest)))
                address seq ((out # rest) ! j)"
    proof (intro allI impI)
      fix j assume j: "j < Suc k"
      show "sint (i + of_nat j * step) < sint timeout \<and>
              keeps_polling expirationTimeSec (after_polls c address seq (take j (out # rest)))
                address seq ((out # rest) ! j)"
      proof (cases j)
        case 0
        with goes_on show ?thesis by simp
      next
        case (Suc j')
        with j k(2) show ?thesis by (simp add: algebra_simps)
      qed
    qed
    have "Suc k \<le> length (out # rest) \<and>
           (\<forall>j<Suc k. sint (i + of_nat j * step) < sint timeout \<and>
              keeps_polling expirationTimeSec (after_polls c address seq (take j (out # rest)))
                address seq ((out # rest) ! j)) \<and>
           \<not> sint (i + of_nat (Suc k) * step) < sint timeout \<and>
           WaitLoop c address seq signature expirationTimeSec timeout i (out # rest) n =
             \<lparr>returned = Some (None, Some (NotFoundWithinTimeout timeout)),
              client_after = after_polls c address seq (take (Suc k) (out # rest)),
              unread = drop (Suc k) (out # rest), slept = n + Suc k\<rparr>"
      using k(1,3,4) all eq by (simp add: algebra_simps)
    then show ?thesis by blast
  qed
qed

text \<open>
  The loop returns once the script is long enough for the timeout: each poll that goes on
  adds 500 ms to the counter, which does not wrap as long as the timeout is at least one
  step below the largest \<^verbatim>\<open>Duration\<close>. So \<open>returned\<close> is \<open>None\<close> only for want of answers.
\<close>

lemma sint_step: "sint step = 500000000"
  by (simp add: step_def)

lemma sint_add_step:
  assumes "0 \<le> sint i" and "sint i < sint timeout"
    and "sint timeout \<le> 2 ^ 63 - 500000000"
  shows "sint (i + step) = sint i + 500000000"
proof -
  have "sint (i + step) = signed_take_bit 63 (sint i + sint step)"
    by (simp add: sint_word_ariths)
  also have "\<dots> = sint i + sint step"
    using assms by (intro signed_take_bit_int_eq_self) (simp_all add: sint_step)
  finally show ?thesis
    by (simp add: sint_step)
qed

lemma WaitLoop_returns:
  fixes timeout :: Duration
  assumes "0 \<le> sint i" and "sint timeout \<le> 2 ^ 63 - 500000000"
    and "sint timeout - sint i \<le> int (length script) * 500000000"
  shows "returned (WaitLoop c address seq signature expirationTimeSec timeout i script n) \<noteq> None"
  using assms
proof (induction script arbitrary: c i n)
  case Nil
  then have "\<not> sint i < sint timeout" by simp
  then show ?case by (simp add: WaitLoop_timeout)
next
  case (Cons out rest)
  consider (timeout) "\<not> sint i < sint timeout"
    | (goes_on) "sint i < sint timeout" "keeps_polling expirationTimeSec c address seq out"
    | (stops) "sint i < sint timeout" "\<not> keeps_polling expirationTimeSec c address seq out"
    by blast
  then show ?case
  proof cases
    case timeout
    then show ?thesis by (simp add: WaitLoop_timeout)
  next
    case stops
    from WaitLoop_stops [OF this, of signature rest n] show ?thesis
      by auto
  next
    case goes_on
    have s: "sint (i + step) = sint i + 500000000"
      by (rule sint_add_step [OF Cons.prems(1) goes_on(1) Cons.prems(2)])
    have "returned (WaitLoop (snd (GetAccountTransaction c address seq True out)) address seq
        signature expirationTimeSec timeout (i + step) rest (Suc n)) \<noteq> None"
    proof (rule Cons.IH)
      show "0 \<le> sint (i + step)"
        using Cons.prems(1) by (simp add: s)
      show "sint timeout \<le> 2 ^ 63 - 500000000"
        by (rule Cons.prems(2))
      show "sint timeout - sint (i + step) \<le> int (length rest) * 500000000"
        unfolding s using Cons.prems(3) by (simp add: algebra_simps)
    qed
    with goes_on show ?thesis
      by (simp add: WaitLoop_keeps_polling)
  qed
qed

lemma WaitForTransaction_returns:
  fixes timeout :: Duration
  assumes "sint timeout \<le> 2 ^ 63 - 500000000"
    and "sint timeout \<le> int (length script) * 500000000"
  shows "returned (WaitForTransaction c address seq signature expirationTimeSec timeout script)
           \<noteq> None"
  unfolding WaitForTransaction_def
  using assms by (intro WaitLoop_returns) simp_all

section \<open>The stored ledger state never goes back\<close>

lemma stored_states_ge:
  "s \<in> set (stored_states c states) \<Longrightarrow> state_le (last' c) s"
proof (induction states arbitrary: c)
  case Nil
  then show ?case by simp
next
  case (Cons state states)
  obtain err c' where v: "validateAndUpdateState c state = (err, c')"
    by (cases "validateAndUpdateState c state")
  have le: "state_le (last' c) (last' c')"
    using validate_le [of c state] v by simp
  from Cons.prems v have "s = last' c' \<or> s \<in> set (stored_states c' states)"
    by simp
  then show ?case
    using le Cons.IH [of c'] state_le_trans by blast
qed

lemma sorted_stored_states: "sorted_wrt state_le (stored_states c states)"
proof (induction states arbitrary: c)
  case Nil
  then show ?case by simp
next
  case (Cons state states)
  obtain err c' where v: "validateAndUpdateState c state = (err, c')"
    by (cases "validateAndUpdateState c state")
  show ?case
    using v Cons.IH [of c'] stored_states_ge [of _ c' states] by simp
qed

text \<open>
  Claim C1. A candidate whose version is smaller than the stored one is rejected with the
  stale-version error, and one whose version is not smaller but whose timestamp is, with
  the stale-timestamp error; in both cases the client is left as it was. A candidate that
  is not rejected is the stored state afterwards. So along every sequence of updates
  through \<open>validateAndUpdateState\<close>, whatever the candidates, each stored state is at
  least every earlier one in version and in timestamp.
\<close>

theorem validateAndUpdateState_monotone:
  "(Version state < Version (last' c) \<longrightarrow>
      validateAndUpdateState c state =
        (Some (StaleResponse ''version'' (Version (last' c)) (Version state)), c))
   \<and> (\<not> Version state < Version (last' c) \<and> TimestampUsec state < TimestampUsec (last' c) \<longrightarrow>
      validateAndUpdateState c state =
        (Some (StaleResponse ''timestamp(usec)'' (TimestampUsec (last' c)) (TimestampUsec state)),
         c))
   \<and> (fst (validateAndUpdateState c state) = None \<longrightarrow>
      snd (validateAndUpdateState c state) = c\<lparr>last' := state\<rparr>)
   \<and> sorted_wrt state_le (last' c # stored_states c states)"
  using sorted_stored_states [of c states] stored_states_ge [of _ c states]
  by (auto simp: validate_cases)

text \<open>
  The scenario of the design: from the zero state, \<open>{100, 5}\<close> is accepted; then \<open>{90, 5}\<close>
  is rejected for its timestamp and \<open>{200, 4}\<close> for its version, and \<open>{100, 5}\<close> stays.
\<close>

theorem validateAndUpdateState_monotone_witness:
  "validateAndUpdateState seen_100_5 \<lparr>TimestampUsec = 200, Version = 4\<rparr> =
     (Some (StaleResponse ''version'' 5 4), seen_100_5)
   \<and> validateAndUpdateState seen_100_5 \<lparr>TimestampUsec = 90, Version = 5\<rparr> =
     (Some (StaleResponse ''timestamp(usec)'' 100 90), seen_100_5)
   \<and> snd (validateAndUpdateState (NewWithJsonRpcClient 2) \<lparr>TimestampUsec = 100, Version = 5\<rparr>) =
     seen_100_5
   \<and> stored_states (NewWithJsonRpcClient 2)
       [\<lparr>TimestampUsec = 100, Version = 5\<rparr>, \<lparr>TimestampUsec = 90, Version = 5\<rparr>,
        \<lparr>TimestampUsec = 200, Version = 4\<rparr>, \<lparr>TimestampUsec = 100, Version = 7\<rparr>] =
       [\<lparr>TimestampUsec = 100, Version = 5\<rparr>, \<lparr>TimestampUsec = 100, Version = 5\<rparr>,
        \<lparr>TimestampUsec = 100, Version = 5\<rparr>, \<lparr>TimestampUsec = 100, Version = 7\<rparr>]
   \<and> sorted_wrt state_le
       (\<lparr>TimestampUsec = 0, Version = 0\<rparr> #
        stored_states (NewWithJsonRpcClient 2)
          [\<lparr>TimestampUsec = 100, Version = 5\<rparr>, \<lparr>TimestampUsec = 90, Version = 5\<rparr>,
           \<lparr>TimestampUsec = 200, Version = 4\<rparr>, \<lparr>TimestampUsec = 100, Version = 7\<rparr>])"
  using validateAndUpdateState_monotone
      [of "\<lparr>TimestampUsec = 200, Version = 4\<rparr>" seen_100_5 "[]"]
    validateAndUpdateState_monotone
      [of "\<lparr>TimestampUsec = 90, Version = 5\<rparr>" seen_100_5 "[]"]
    validateAndUpdateState_monotone
      [of "\<lparr>TimestampUsec = 100, Version = 5\<rparr>" "NewWithJsonRpcClient 2"
        "[\<lparr>TimestampUsec = 100, Version = 5\<rparr>, \<lparr>TimestampUsec = 90, Version = 5\<rparr>,
          \<lparr>TimestampUsec = 200, Version = 4\<rparr>, \<lparr>TimestampUsec = 100, Version = 7\<rparr>]"]
  by (simp add: seen_100_5_def NewWithJsonRpcClient_def validate_cases)

text \<open>
  Claim C8. A candidate equal to the stored state in version and timestamp is accepted
  and the client is left as it was; and a state that was accepted is accepted again, with
  no change, when it is applied a second time.
\<close>

theorem validateAndUpdateState_same_state:
  "(Version state = Version (last' c) \<and> TimestampUsec state = TimestampUsec (last' c) \<longrightarrow>
      validateAndUpdateState c state = (None, c))
   \<and> (validateAndUpdateState c state = (None, c') \<longrightarrow>
      validateAndUpdateState c' state = (None, c'))"
  by (auto simp: validate_cases split: if_splits)

theorem validateAndUpdateState_same_state_witness:
  "validateAndUpdateState seen_100_5 \<lparr>TimestampUsec = 100, Version = 5\<rparr> = (None, seen_100_5)
   \<and> validateAndUpdateState (NewWithJsonRpcClient 2) \<lparr>TimestampUsec = 100, Version = 5\<rparr> =
       (None, seen_100_5)"
  using validateAndUpdateState_same_state
      [of "\<lparr>TimestampUsec = 100, Version = 5\<rparr>" seen_100_5 seen_100_5]
    validateAndUpdateState_same_state
      [of "\<lparr>TimestampUsec = 100, Version = 5\<rparr>" "NewWithJsonRpcClient 2" seen_100_5]
  by (simp add: seen_100_5_def NewWithJsonRpcClient_def validate_cases)

section \<open>Every response goes through the gate first\<close>

lemma chain_id_in_byte_range:
  "0 \<le> x \<Longrightarrow> x < 256 \<Longrightarrow> (word_of_int x \<noteq> (b::byte)) = (x \<noteq> uint b)"
proof -
  assume x: "0 \<le> x" "x < 256"
  have "uint (word_of_int x :: byte) = x"
    using x by (simp add: uint_word_of_int_eq take_bit_int_eq_self)
  then show ?thesis
    by (metis word_of_int_uint)
qed

text \<open>
  Claim C4. When the chain identity of a response, as \<open>call\<close> converts it to a byte,
  differs from the client's, \<open>call\<close> fails with the chain-identity error for every version
  and timestamp the response carries, and leaves the client as it was; the gate gives that
  error whatever the candidate, so no comparison of versions or timestamps decides the
  outcome. For an identity in the range of a byte the conversion changes nothing
  (\<open>chain_id_in_byte_range\<close>).
\<close>

theorem call_chain_id_mismatch:
  assumes "word_of_int (LibraChainID resp) \<noteq> chainID c"
  shows "call c ret (Inr (resp\<lparr>LibraLedgerTimestampusec := timestamp,
                              LibraLedgerVersion := version\<rparr>)) =
           ((False, Some (ChainIdMismatch (chainID c) (word_of_int (LibraChainID resp)))), ret, c)
         \<and> validateAndAdvance c (word_of_int (LibraChainID resp)) state =
           (Some (ChainIdMismatch (chainID c) (word_of_int (LibraChainID resp))), c)"
  using assms by (simp add: call_gate validateAndAdvance_def validateChainID_def)


lemma advance_error_kinds:
  "validateAndAdvance c cid state = (Some e, c') \<Longrightarrow>
     e = ChainIdMismatch (chainID c) cid \<or>
     e = StaleResponse ''version'' (Version (last' c)) (Version state) \<or>
     e = StaleResponse ''timestamp(usec)'' (TimestampUsec (last' c)) (TimestampUsec state)"
  by (auto simp: validateAndAdvance_def validateChainID_def validate_cases
      split: option.splits if_splits)

text \<open>
  Claim C7. Let the gate, run on the chain identity and the ledger state of a response,
  give a verdict and a client. If the verdict is an error (the chain-identity error or a
  stale-response error), each of the nine methods returns that error with a \<^verbatim>\<open>nil\<close>
  value and the client unchanged, whatever result and error the response carries. If the
  gate accepts, the client each method leaves behind stores the response's ledger state,
  and a response that carries an error makes each method return that error, with the
  stored state advanced all the same.
\<close>

theorem methods_validate_first:
  assumes "validateAndAdvance c (word_of_int (LibraChainID resp)) (candidate resp) = (verdict, c')"
  shows
    "(\<forall>e. verdict = Some e \<longrightarrow>
         c' = c \<and>
         (e = ChainIdMismatch (chainID c) (word_of_int (LibraChainID resp)) \<or>
          e = StaleResponse ''version'' (Version (last' c)) (LibraLedgerVersion resp) \<or>
          e = StaleResponse ''timestamp(usec)'' (TimestampUsec (last' c))
                (LibraLedgerTimestampusec resp)) \<and>
         GetCurrencies c (Inr resp) = ((None, Some e), c) \<and>
         GetMetadata c (Inr resp) = ((None, Some e), c) \<and>
         GetMetadataByVersion c version (Inr resp) = ((None, Some e), c) \<and>
         GetAccount c address (Inr resp) = ((None, Some e), c) \<and>
         GetAccountTransaction c address sequenceNum includeEvent (Inr resp) = ((None, Some e), c) \<and>
         GetAccountTransactions c address start limit includeEvent (Inr resp) = ((None, Some e), c) \<and>
         GetTransactions c startVersion limit includeEvent (Inr resp) = ((None, Some e), c) \<and>
         GetEvents c key start limit (Inr resp) = ((None, Some e), c) \<and>
         Submit c data (Inr resp) = (Some e, c))
     \<and> (verdict = None \<longrightarrow>
      last' c' = candidate resp \<and>
      snd (GetCurrencies c (Inr resp)) = c' \<and>
      snd (GetMetadata c (Inr resp)) = c' \<and>
      snd (GetMetadataByVersion c version (Inr resp)) = c' \<and>
      snd (GetAccount c address (Inr resp)) = c' \<and>
      snd (GetAccountTransaction c address sequenceNum includeEvent (Inr resp)) = c' \<and>
      snd (GetAccountTransactions c address start limit includeEvent (Inr resp)) = c' \<and>
      snd (GetTransactions c startVersion limit includeEvent (Inr resp)) = c' \<and>
      snd (GetEvents c key start limit (Inr resp)) = c' \<and>
      snd (Submit c data (Inr resp)) = c' \<and>
      (\<forall>msg. Error resp = Some msg \<longrightarrow>
            GetCurrencies c (Inr resp) = ((None, Some (ResponseError msg)), c') \<and>
            GetMetadata c (Inr resp) = ((None, Some (ResponseError msg)), c') \<and>
            GetMetadataByVersion c version (Inr resp) = ((None, Some (ResponseError msg)), c') \<and>
            GetAccount c address (Inr resp) = ((None, Some (ResponseError msg)), c') \<and>
            GetAccountTransaction c address sequenceNum includeEvent (Inr resp) = ((None, Some (ResponseError msg)), c') \<and>
            GetAccountTransactions c address start limit includeEvent (Inr resp) = ((None, Some (ResponseError msg)), c') \<and>
            GetTransactions c startVersion limit includeEvent (Inr resp) = ((None, Some (ResponseError msg)), c') \<and>
            GetEvents c key start limit (Inr resp) = ((None, Some (ResponseError msg)), c') \<and>
            Submit c data (Inr resp) = (Some (ResponseError msg), c')))"
proof (cases verdict)
  case None
  with assms have g: "validateAndAdvance c (word_of_int (LibraChainID resp)) (candidate resp) =
      (None, c')"
    by simp
  from advance_None_last [OF g] have "last' c' = candidate resp"
    by simp
  with None show ?thesis
    using GetCurrencies_accepted [OF g] GetMetadata_accepted [OF g]
      GetMetadataByVersion_accepted [OF g] GetAccount_accepted [OF g]
      GetAccountTransaction_accepted [OF g] GetAccountTransactions_accepted [OF g]
      GetTransactions_accepted [OF g] GetEvents_accepted [OF g] Submit_accepted [OF g]
    by simp
next
  case (Some e)
  with assms have g: "validateAndAdvance c (word_of_int (LibraChainID resp)) (candidate resp) =
      (Some e, c')"
    by simp
  have c': "c' = c"
    by (rule advance_Some_client [OF g])
  from advance_error_kinds [OF g] have kinds:
    "e = ChainIdMismatch (chainID c) (word_of_int (LibraChainID resp)) \<or>
          e = StaleResponse ''version'' (Version (last' c)) (LibraLedgerVersion resp) \<or>
          e = StaleResponse ''timestamp(usec)'' (TimestampUsec (last' c))
                (LibraLedgerTimestampusec resp)"
    by (simp add: candidate_def)
  from Some c' kinds show ?thesis
    using GetCurrencies_rejected [OF g] GetMetadata_rejected [OF g]
      GetMetadataByVersion_rejected [OF g] GetAccount_rejected [OF g]
      GetAccountTransaction_rejected [OF g] GetAccountTransactions_rejected [OF g]
      GetTransactions_rejected [OF g] GetEvents_rejected [OF g] Submit_rejected [OF g]
    by simp
qed


text \<open>
  A response of chain 4 to a client of chain 2, once with a candidate behind the stored
  state and once with one ahead of it: the same chain-identity error.
\<close>

theorem call_chain_id_mismatch_witness:
  "call seen_100_5 None
      (Inr \<lparr>LibraChainID = 4, LibraLedgerTimestampusec = 0, LibraLedgerVersion = 0,
            Error = None, UnmarshalResult = (True, None), Result = Some (7::nat)\<rparr>) =
     ((False, Some (ChainIdMismatch 2 4)), None, seen_100_5)
   \<and> call seen_100_5 None
      (Inr \<lparr>LibraChainID = 4, LibraLedgerTimestampusec = 200, LibraLedgerVersion = 9,
            Error = None, UnmarshalResult = (True, None), Result = Some (7::nat)\<rparr>) =
     ((False, Some (ChainIdMismatch 2 4)), None, seen_100_5)"
  using call_chain_id_mismatch
      [of "\<lparr>LibraChainID = 4, LibraLedgerTimestampusec = 0, LibraLedgerVersion = 0,
            Error = None, UnmarshalResult = (True, None), Result = Some (7::nat)\<rparr>"
        seen_100_5 None, where timestamp = 0 and version = 0]
    call_chain_id_mismatch
      [of "\<lparr>LibraChainID = 4, LibraLedgerTimestampusec = 0, LibraLedgerVersion = 0,
            Error = None, UnmarshalResult = (True, None), Result = Some (7::nat)\<rparr>"
        seen_100_5 None, where timestamp = 200 and version = 9]
  by (simp add: seen_100_5_def)

text \<open>
  Two responses that both carry a server error and a result: the stale one gives the
  stale-response error and no change, the fresh one the server's error and the new state.
\<close>

theorem methods_validate_first_witness:
  "GetMetadata seen_100_5
      (Inr \<lparr>LibraChainID = 2, LibraLedgerTimestampusec = 90, LibraLedgerVersion = 5,
            Error = Some ''server error'', UnmarshalResult = (True, None),
            Result = Some (7::nat)\<rparr>) =
     ((None, Some (StaleResponse ''timestamp(usec)'' 100 90)), seen_100_5)
   \<and> GetMetadata seen_100_5
      (Inr \<lparr>LibraChainID = 2, LibraLedgerTimestampusec = 200, LibraLedgerVersion = 9,
            Error = Some ''server error'', UnmarshalResult = (True, None),
            Result = Some (7::nat)\<rparr>) =
     ((None, Some (ResponseError ''server error'')),
      \<lparr>chainID = 2, last' = \<lparr>TimestampUsec = 200, Version = 9\<rparr>\<rparr>)"
  using methods_validate_first
      [of seen_100_5
        "\<lparr>LibraChainID = 2, LibraLedgerTimestampusec = 90, LibraLedgerVersion = 5,
          Error = Some ''server error'', UnmarshalResult = (True, None),
          Result = Some (7::nat)\<rparr>"
        "Some (StaleResponse ''timestamp(usec)'' 100 90)" seen_100_5]
    methods_validate_first
      [of seen_100_5
        "\<lparr>LibraChainID = 2, LibraLedgerTimestampusec = 200, LibraLedgerVersion = 9,
          Error = Some ''server error'', UnmarshalResult = (True, None),
          Result = Some (7::nat)\<rparr>"
        None "\<lparr>chainID = 2, last' = \<lparr>TimestampUsec = 200, Version = 9\<rparr>\<rparr>"]
  by (simp add: seen_100_5_def validateAndAdvance_def validateChainID_def validate_cases
      candidate_def)

section \<open>The outcome of a wait\<close>

lemma reaches_poll_iff:
  "reaches_poll c address seq expirationTimeSec timeout script k \<longleftrightarrow>
     k < length script \<and> sint (of_nat k * step) < sint timeout \<and>
     (\<forall>j<k. sint (of_nat j * step) < sint timeout \<and>
        keeps_polling expirationTimeSec (after_polls c address seq (take j script))
          address seq (script ! j))"
  by (auto simp: reaches_poll_def)

lemma WaitForTransaction_at_poll:
  assumes "reaches_poll c address seq expirationTimeSec timeout script k"
  shows "WaitForTransaction c address seq signature expirationTimeSec timeout script =
         WaitLoop (after_polls c address seq (take k script)) address seq signature
           expirationTimeSec timeout (of_nat k * step) (script ! k # drop (Suc k) script) k"
proof -
  from assms have k: "k < length script"
    and before: "\<forall>j<k. sint (0 + of_nat j * step) < sint timeout \<and>
        keeps_polling expirationTimeSec (after_polls c address seq (take j script))
          address seq (script ! j)"
    by (simp_all add: reaches_poll_iff)
  from k have "k \<le> length script" by simp
  from WaitLoop_skip [OF this before, of signature 0]
  show ?thesis
    using k by (simp add: WaitForTransaction_def Cons_nth_drop_Suc)
qed

lemma reaches_poll_counter:
  "reaches_poll c address seq expirationTimeSec timeout script k \<Longrightarrow>
     sint (of_nat k * step) < sint timeout"
  by (simp add: reaches_poll_def)

lemma lookup_not_found:
  assumes "GetAccountTransaction c address seq b out = ((None, None), c')"
  shows "\<exists>resp. out = Inr resp \<and> last' c' = candidate resp \<and> chainID c' = chainID c \<and>
           word_of_int (LibraChainID resp) = chainID c \<and> Error resp = None \<and>
           UnmarshalResult resp = (False, None)"
proof (cases out)
  case (Inl msg)
  with assms show ?thesis
    by (simp add: GetAccountTransaction_Inl)
next
  case (Inr resp)
  obtain verdict c1 where g:
    "validateAndAdvance c (word_of_int (LibraChainID resp)) (candidate resp) = (verdict, c1)"
    by (metis surj_pair)
  show ?thesis
  proof (cases verdict)
    case (Some e)
    with g assms Inr show ?thesis
      by (simp add: GetAccountTransaction_rejected)
  next
    case None
    with g have g': "validateAndAdvance c (word_of_int (LibraChainID resp)) (candidate resp) =
        (None, c1)"
      by simp
    have chain: "word_of_int (LibraChainID resp) = chainID c"
      using g' by (auto simp: validateAndAdvance_def validateChainID_def split: if_splits)
    from advance_None_last [OF g'] have c1: "c1 = c\<lparr>last' := candidate resp\<rparr>" .
    from assms Inr g' have "c' = c1 \<and> Error resp = None \<and> UnmarshalResult resp = (False, None)"
      by (cases "UnmarshalResult resp")
        (auto simp: GetAccountTransaction_def call_gate split: option.splits if_splits)
    with c1 chain Inr show ?thesis by simp
  qed
qed

text \<open>The definitions that evaluate an example run.\<close>

lemmas run_simps = reaches_poll_def keeps_polling_def expired_def step_def
  GetAccountTransaction_def call_def validateChainID_def validate_cases
  NewWithJsonRpcClient_def not_found_def found_def LastResponseLedgerState_def

text \<open>
  Claim C2. At every poll of \<open>WaitForTransaction\<close> whose lookup finds a transaction, the
  wait ends at that poll: with the signature-mismatch error when the signature differs
  from the expected one, whatever the status; with the execution-failed error, carrying
  the status, when the signature is the expected one and the status is not "executed";
  and with the transaction otherwise. So it returns a transaction exactly when the
  signature is the expected one and the status is "executed".
\<close>

theorem WaitForTransaction_found:
  assumes "reaches_poll c address seq expirationTimeSec timeout script k"
    and "GetAccountTransaction (after_polls c address seq (take k script)) address seq True
           (script ! k) = ((Some ret, None), c')"
  shows "WaitForTransaction c address seq signature expirationTimeSec timeout script =
           \<lparr>returned =
              Some (if Signature (Transaction (deref ret)) \<noteq> signature
                    then (None, Some SignatureMismatch)
                    else if Type (VmStatus (deref ret)) \<noteq> ''executed''
                    then (None, Some (ExecutionFailed (VmStatus (deref ret))))
                    else (Some ret, None)),
            client_after = c', unread = drop (Suc k) script, slept = k\<rparr>
         \<and> ((\<exists>txn err. returned (WaitForTransaction c address seq signature expirationTimeSec
                 timeout script) = Some (Some txn, err)) \<longleftrightarrow>
              Signature (Transaction (deref ret)) = signature \<and>
              Type (VmStatus (deref ret)) = ''executed'')"
  using WaitLoop_found [OF reaches_poll_counter [OF assms(1)] assms(2)]
  by (simp add: WaitForTransaction_at_poll [OF assms(1)] VmStatusExecuted_def)

text \<open>
  Claim C9. At every poll of \<open>WaitForTransaction\<close> whose lookup returns an error, the wait
  returns that error at that poll: the answers after it are not asked for, and the loop
  has slept once for each earlier poll and not again.
\<close>

theorem WaitForTransaction_lookup_error:
  assumes "reaches_poll c address seq expirationTimeSec timeout script k"
    and "GetAccountTransaction (after_polls c address seq (take k script)) address seq True
           (script ! k) = ((txn, Some e), c')"
  shows "WaitForTransaction c address seq signature expirationTimeSec timeout script =
           \<lparr>returned = Some (None, Some e), client_after = c',
            unread = drop (Suc k) script, slept = k\<rparr>"
  using WaitLoop_error [OF reaches_poll_counter [OF assms(1)] assms(2)]
  by (simp add: WaitForTransaction_at_poll [OF assms(1)])

text \<open>
  Claim C3. At every poll of \<open>WaitForTransaction\<close> whose lookup finds no transaction and
  gives no error, the wait ends at that poll with the expired error exactly when
  \<open>expirationTimeSec * 1000000\<close>, in \<^verbatim>\<open>uint64\<close> arithmetic, is at most the timestamp the
  client stores after the lookup; equality counts. The poll is one the loop makes, so the
  timeout has not been reached. Otherwise the loop sleeps and goes on with the next
  counter. The stored timestamp is the one the answer to this lookup reported: no clock
  of the caller enters the test.
\<close>

theorem WaitForTransaction_expired:
  assumes "reaches_poll c address seq expirationTimeSec timeout script k"
    and "GetAccountTransaction (after_polls c address seq (take k script)) address seq True
           (script ! k) = ((None, None), c')"
  shows "(WaitForTransaction c address seq signature expirationTimeSec timeout script =
            \<lparr>returned = Some (None, Some TransactionExpired), client_after = c',
             unread = drop (Suc k) script, slept = k\<rparr>
          \<longleftrightarrow> expirationTimeSec * 1000000 \<le> TimestampUsec (last' c'))
         \<and> (\<not> expirationTimeSec * 1000000 \<le> TimestampUsec (last' c') \<longrightarrow>
              WaitForTransaction c address seq signature expirationTimeSec timeout script =
              WaitLoop c' address seq signature expirationTimeSec timeout
                (of_nat (Suc k) * step) (drop (Suc k) script) (Suc k))
         \<and> (\<exists>resp. script ! k = Inr resp \<and>
              TimestampUsec (last' c') = LibraLedgerTimestampusec resp)"
proof -
  let ?W = "WaitForTransaction c address seq signature expirationTimeSec timeout script"
  note at = WaitForTransaction_at_poll [OF assms(1), of signature]
  note counter = reaches_poll_counter [OF assms(1)]
  have yes: "?W = \<lparr>returned = Some (None, Some TransactionExpired), client_after = c',
             unread = drop (Suc k) script, slept = k\<rparr>"
    if "expirationTimeSec * 1000000 \<le> TimestampUsec (last' c')"
    using that WaitLoop_expired [OF counter assms(2), of expirationTimeSec signature]
    by (simp add: at expired_def LastResponseLedgerState_def)
  have no: "?W = WaitLoop c' address seq signature expirationTimeSec timeout
                (of_nat (Suc k) * step) (drop (Suc k) script) (Suc k)"
    if "\<not> expirationTimeSec * 1000000 \<le> TimestampUsec (last' c')"
    using that WaitLoop_sleep [OF counter assms(2), of expirationTimeSec signature]
    by (simp add: at expired_def LastResponseLedgerState_def algebra_simps)
  have "slept ?W \<noteq> k" if "\<not> expirationTimeSec * 1000000 \<le> TimestampUsec (last' c')"
    using no [OF that] slept_mono [of "Suc k" c' address seq signature expirationTimeSec timeout
        "of_nat (Suc k) * step" "drop (Suc k) script"]
    by simp
  then have only: "expirationTimeSec * 1000000 \<le> TimestampUsec (last' c')"
    if "?W = \<lparr>returned = Some (None, Some TransactionExpired), client_after = c',
             unread = drop (Suc k) script, slept = k\<rparr>"
    using that by auto
  from lookup_not_found [OF assms(2)] have "\<exists>resp. script ! k = Inr resp \<and>
              TimestampUsec (last' c') = LibraLedgerTimestampusec resp"
    by (auto simp: candidate_def)
  with yes no only show ?thesis by blast
qed


text \<open>
  The second poll finds a transaction: signed \<open>xyz\<close> where \<open>abc\<close> is expected; signed
  \<open>abc\<close> with the status \<open>out_of_gas\<close>; signed \<open>abc\<close> and executed.
\<close>

theorem WaitForTransaction_found_witness:
  "WaitForTransaction (NewWithJsonRpcClient 2) ''addr'' 3 ''abc'' 1000 5000000000
       [not_found 5 1, found ''xyz'' ''executed'' 6 2] =
     \<lparr>returned = Some (None, Some SignatureMismatch),
      client_after = \<lparr>chainID = 2, last' = \<lparr>TimestampUsec = 6, Version = 2\<rparr>\<rparr>,
      unread = [], slept = 1\<rparr>
   \<and> WaitForTransaction (NewWithJsonRpcClient 2) ''addr'' 3 ''abc'' 1000 5000000000
       [not_found 5 1, found ''abc'' ''out_of_gas'' 6 2] =
     \<lparr>returned = Some (None, Some (ExecutionFailed \<lparr>Type = ''out_of_gas''\<rparr>)),
      client_after = \<lparr>chainID = 2, last' = \<lparr>TimestampUsec = 6, Version = 2\<rparr>\<rparr>,
      unread = [], slept = 1\<rparr>
   \<and> WaitForTransaction (NewWithJsonRpcClient 2) ''addr'' 3 ''abc'' 1000 5000000000
       [not_found 5 1, found ''abc'' ''executed'' 6 2] =
     \<lparr>returned =
        Some (Some (Some \<lparr>Transaction = \<lparr>Signature = ''abc''\<rparr>,
                          VmStatus = \<lparr>Type = ''executed''\<rparr>\<rparr>), None),
      client_after = \<lparr>chainID = 2, last' = \<lparr>TimestampUsec = 6, Version = 2\<rparr>\<rparr>,
      unread = [], slept = 1\<rparr>"
proof -
  let ?c = "\<lparr>chainID = 2, last' = \<lparr>TimestampUsec = 6, Version = 2\<rparr>\<rparr>"
  have r: "reaches_poll (NewWithJsonRpcClient 2) ''addr'' 3 1000 5000000000
      [not_found 5 1, found sig status 6 2] 1" for sig status
    by (simp add: reaches_poll_def keeps_polling_def expired_def step_def
        GetAccountTransaction_def call_def validateChainID_def validate_cases
        NewWithJsonRpcClient_def not_found_def LastResponseLedgerState_def)
  have g: "GetAccountTransaction
      (after_polls (NewWithJsonRpcClient 2) ''addr'' 3 (take 1 [not_found 5 1, found sig status 6 2]))
      ''addr'' 3 True ([not_found 5 1, found sig status 6 2] ! 1) =
      ((Some (Some \<lparr>Transaction = \<lparr>Signature = sig\<rparr>, VmStatus = \<lparr>Type = status\<rparr>\<rparr>), None), ?c)"
    for sig status
    by (simp add: GetAccountTransaction_def call_def validateChainID_def validate_cases
        NewWithJsonRpcClient_def not_found_def found_def)
  show ?thesis
    using WaitForTransaction_found [OF r [of "''xyz''" "''executed''"] g, where signature = "''abc''"]
      WaitForTransaction_found [OF r [of "''abc''" "''out_of_gas''"] g, where signature = "''abc''"]
      WaitForTransaction_found [OF r [of "''abc''" "''executed''"] g, where signature = "''abc''"]
    by (simp add: deref_def)
qed


text \<open>
  The second lookup fails, once in the transport and once at the guard (a timestamp that
  went back); the third answer is never asked for.
\<close>

theorem WaitForTransaction_lookup_error_witness:
  "WaitForTransaction (NewWithJsonRpcClient 2) ''addr'' 3 ''abc'' 1000 5000000000
       [not_found 5 1, Inl ''connection refused'', not_found 7 3] =
     \<lparr>returned = Some (None, Some (TransportError ''connection refused'')),
      client_after = \<lparr>chainID = 2, last' = \<lparr>TimestampUsec = 5, Version = 1\<rparr>\<rparr>,
      unread = [not_found 7 3], slept = 1\<rparr>
   \<and> WaitForTransaction (NewWithJsonRpcClient 2) ''addr'' 3 ''abc'' 1000 5000000000
       [not_found 5 1, not_found 4 1, not_found 7 3] =
     \<lparr>returned = Some (None, Some (StaleResponse ''timestamp(usec)'' 5 4)),
      client_after = \<lparr>chainID = 2, last' = \<lparr>TimestampUsec = 5, Version = 1\<rparr>\<rparr>,
      unread = [not_found 7 3], slept = 1\<rparr>"
proof -
  let ?c = "\<lparr>chainID = 2, last' = \<lparr>TimestampUsec = 5, Version = 1\<rparr>\<rparr>"
  have r: "reaches_poll (NewWithJsonRpcClient 2) ''addr'' 3 1000 5000000000
      [not_found 5 1, out, not_found 7 3] 1" for out
    by (simp add: run_simps)
  have g1: "GetAccountTransaction
      (after_polls (NewWithJsonRpcClient 2) ''addr'' 3
         (take 1 [not_found 5 1, Inl ''connection refused'', not_found 7 3]))
      ''addr'' 3 True ([not_found 5 1, Inl ''connection refused'', not_found 7 3] ! 1) =
      ((None, Some (TransportError ''connection refused'')), ?c)"
    by (simp add: run_simps)
  have g2: "GetAccountTransaction
      (after_polls (NewWithJsonRpcClient 2) ''addr'' 3
         (take 1 [not_found 5 1, not_found 4 1, not_found 7 3]))
      ''addr'' 3 True ([not_found 5 1, not_found 4 1, not_found 7 3] ! 1) =
      ((None, Some (StaleResponse ''timestamp(usec)'' 5 4)), ?c)"
    by (simp add: run_simps)
  show ?thesis
    using WaitForTransaction_lookup_error [OF r g1, where signature = "''abc''"]
      WaitForTransaction_lookup_error [OF r g2, where signature = "''abc''"]
    by simp
qed

text \<open>
  The scenario of the design: expiration 1000, timeout 5 s, no transaction found; the
  first answer is one microsecond short of the expiration, so the loop goes on, and the
  second reaches it exactly.
\<close>

theorem WaitForTransaction_expired_witness:
  "WaitForTransaction (NewWithJsonRpcClient 2) ''addr'' 3 ''abc'' 1000 5000000000
       [not_found 999999999 1, not_found 1000000000 2] =
     \<lparr>returned = Some (None, Some TransactionExpired),
      client_after = \<lparr>chainID = 2, last' = \<lparr>TimestampUsec = 1000000000, Version = 2\<rparr>\<rparr>,
      unread = [], slept = 1\<rparr>
   \<and> WaitForTransaction (NewWithJsonRpcClient 2) ''addr'' 3 ''abc'' 1000 5000000000
       [not_found 999999999 1, not_found 1000000000 2] =
     WaitLoop \<lparr>chainID = 2, last' = \<lparr>TimestampUsec = 999999999, Version = 1\<rparr>\<rparr> ''addr'' 3
       ''abc'' 1000 5000000000 500000000 [not_found 1000000000 2] 1"
proof -
  let ?script = "[not_found 999999999 1, not_found 1000000000 2]"
  have r0: "reaches_poll (NewWithJsonRpcClient 2) ''addr'' 3 1000 5000000000 ?script 0"
    by (simp add: run_simps)
  have g0: "GetAccountTransaction
      (after_polls (NewWithJsonRpcClient 2) ''addr'' 3 (take 0 ?script))
      ''addr'' 3 True (?script ! 0) =
      ((None, None), \<lparr>chainID = 2, last' = \<lparr>TimestampUsec = 999999999, Version = 1\<rparr>\<rparr>)"
    by (simp add: run_simps)
  have r1: "reaches_poll (NewWithJsonRpcClient 2) ''addr'' 3 1000 5000000000 ?script 1"
    by (simp add: run_simps)
  have g1: "GetAccountTransaction
      (after_polls (NewWithJsonRpcClient 2) ''addr'' 3 (take 1 ?script))
      ''addr'' 3 True (?script ! 1) =
      ((None, None), \<lparr>chainID = 2, last' = \<lparr>TimestampUsec = 1000000000, Version = 2\<rparr>\<rparr>)"
    by (simp add: run_simps)
  show ?thesis
    using WaitForTransaction_expired [OF r0 g0, where signature = "''abc''"]
      WaitForTransaction_expired [OF r1 g1, where signature = "''abc''"]
    by (simp add: step_def)
qed

text \<open>
  Claim C6. If \<open>WaitForTransaction\<close> returns the timeout error, then it made some number
  \<open>k\<close> of polls, each with the counter below the timeout, each without error, without a
  transaction and with the expiration not reached, and the counter of poll \<open>k\<close> is not
  below the timeout. And if a poll the loop makes finds a transaction, or finds none and
  observes the expiration, the wait ends at that poll with the outcome for what it found,
  which is not the timeout error.
\<close>

theorem WaitForTransaction_timed_out:
  "(returned (WaitForTransaction c address seq signature expirationTimeSec timeout script) =
      Some (None, Some (NotFoundWithinTimeout t)) \<longrightarrow>
      (\<exists>k\<le>length script.
         (\<forall>j\<in>{..<k}. sint (of_nat j * step) < sint timeout \<and>
            keeps_polling expirationTimeSec (after_polls c address seq (take j script))
              address seq (script ! j)) \<and>
         \<not> sint (of_nat k * step) < sint timeout \<and>
         WaitForTransaction c address seq signature expirationTimeSec timeout script =
           \<lparr>returned = Some (None, Some (NotFoundWithinTimeout timeout)),
            client_after = after_polls c address seq (take k script),
            unread = drop k script, slept = k\<rparr>))
   \<and> (reaches_poll c address seq expirationTimeSec timeout script k \<and>
      GetAccountTransaction (after_polls c address seq (take k script)) address seq True
        (script ! k) = ((txn, None), c') \<and>
      (txn \<noteq> None \<or> expired expirationTimeSec c') \<longrightarrow>
      WaitForTransaction c address seq signature expirationTimeSec timeout script =
        \<lparr>returned =
           Some (case txn of
                   None \<Rightarrow> (None, Some TransactionExpired)
                 | Some ret \<Rightarrow>
                     if Signature (Transaction (deref ret)) \<noteq> signature
                     then (None, Some SignatureMismatch)
                     else if Type (VmStatus (deref ret)) \<noteq> ''executed''
                     then (None, Some (ExecutionFailed (VmStatus (deref ret))))
                     else (Some ret, None)),
         client_after = c', unread = drop (Suc k) script, slept = k\<rparr> \<and>
      returned (WaitForTransaction c address seq signature expirationTimeSec timeout script) \<noteq>
        Some (None, Some (NotFoundWithinTimeout t)))"
proof (rule conjI; rule impI)
  assume "returned (WaitForTransaction c address seq signature expirationTimeSec timeout script) =
      Some (None, Some (NotFoundWithinTimeout t))"
  then have "returned (WaitLoop c address seq signature expirationTimeSec timeout 0 script 0) =
      Some (None, Some (NotFoundWithinTimeout t))"
    by (simp add: WaitForTransaction_def)
  from timed_out_polls [OF this]
  show "\<exists>k\<le>length script.
         (\<forall>j\<in>{..<k}. sint (of_nat j * step) < sint timeout \<and>
            keeps_polling expirationTimeSec (after_polls c address seq (take j script))
              address seq (script ! j)) \<and>
         \<not> sint (of_nat k * step) < sint timeout \<and>
         WaitForTransaction c address seq signature expirationTimeSec timeout script =
           \<lparr>returned = Some (None, Some (NotFoundWithinTimeout timeout)),
            client_after = after_polls c address seq (take k script),
            unread = drop k script, slept = k\<rparr>"
    by (simp add: WaitForTransaction_def Ball_def)
next
  assume a: "reaches_poll c address seq expirationTimeSec timeout script k \<and>
      GetAccountTransaction (after_polls c address seq (take k script)) address seq True
        (script ! k) = ((txn, None), c') \<and>
      (txn \<noteq> None \<or> expired expirationTimeSec c')"
  then have r: "reaches_poll c address seq expirationTimeSec timeout script k"
    and g: "GetAccountTransaction (after_polls c address seq (take k script)) address seq True
        (script ! k) = ((txn, None), c')"
    and e: "txn \<noteq> None \<or> expired expirationTimeSec c'"
    by simp_all
  note at = WaitForTransaction_at_poll [OF r, of signature]
  note counter = reaches_poll_counter [OF r]
  show "WaitForTransaction c address seq signature expirationTimeSec timeout script =
        \<lparr>returned =
           Some (case txn of
                   None \<Rightarrow> (None, Some TransactionExpired)
                 | Some ret \<Rightarrow>
                     if Signature (Transaction (deref ret)) \<noteq> signature
                     then (None, Some SignatureMismatch)
                     else if Type (VmStatus (deref ret)) \<noteq> ''executed''
                     then (None, Some (ExecutionFailed (VmStatus (deref ret))))
                     else (Some ret, None)),
         client_after = c', unread = drop (Suc k) script, slept = k\<rparr> \<and>
      returned (WaitForTransaction c address seq signature expirationTimeSec timeout script) \<noteq>
        Some (None, Some (NotFoundWithinTimeout t))"
  proof (cases txn)
    case None
    with e have "expired expirationTimeSec c'" by simp
    from WaitLoop_expired [OF counter g [unfolded None] this, of signature]
    show ?thesis
      by (simp add: at None)
  next
    case (Some ret)
    from WaitLoop_found [OF counter g [unfolded Some], of signature expirationTimeSec]
    show ?thesis
      by (simp add: at Some VmStatusExecuted_def)
  qed
qed

text \<open>
  A timeout of one second allows two polls. With no transaction in either the wait times
  out and leaves the third answer unread; with the transaction in the second answer it
  returns the transaction.
\<close>

theorem WaitForTransaction_timed_out_witness:
  "WaitForTransaction (NewWithJsonRpcClient 2) ''addr'' 3 ''abc'' 1000 1000000000
       [not_found 5 1, not_found 6 2, not_found 7 3] =
     \<lparr>returned = Some (None, Some (NotFoundWithinTimeout 1000000000)),
      client_after = \<lparr>chainID = 2, last' = \<lparr>TimestampUsec = 6, Version = 2\<rparr>\<rparr>,
      unread = [not_found 7 3], slept = 2\<rparr>
   \<and> (\<exists>k\<le>length [not_found 5 1, not_found 6 2, not_found 7 3].
         (\<forall>j\<in>{..<k}. sint (of_nat j * step) < sint (1000000000 :: Duration) \<and>
            keeps_polling 1000
              (after_polls (NewWithJsonRpcClient 2) ''addr'' 3
                 (take j [not_found 5 1, not_found 6 2, not_found 7 3]))
              ''addr'' 3 ([not_found 5 1, not_found 6 2, not_found 7 3] ! j)) \<and>
         \<not> sint (of_nat k * step) < sint (1000000000 :: Duration) \<and>
         WaitForTransaction (NewWithJsonRpcClient 2) ''addr'' 3 ''abc'' 1000 1000000000
           [not_found 5 1, not_found 6 2, not_found 7 3] =
           \<lparr>returned = Some (None, Some (NotFoundWithinTimeout 1000000000)),
            client_after =
              after_polls (NewWithJsonRpcClient 2) ''addr'' 3
                (take k [not_found 5 1, not_found 6 2, not_found 7 3]),
            unread = drop k [not_found 5 1, not_found 6 2, not_found 7 3], slept = k\<rparr>)
   \<and> WaitForTransaction (NewWithJsonRpcClient 2) ''addr'' 3 ''abc'' 1000 1000000000
       [not_found 5 1, found ''abc'' ''executed'' 6 2, not_found 7 3] =
     \<lparr>returned =
        Some (Some (Some \<lparr>Transaction = \<lparr>Signature = ''abc''\<rparr>,
                          VmStatus = \<lparr>Type = ''executed''\<rparr>\<rparr>), None),
      client_after = \<lparr>chainID = 2, last' = \<lparr>TimestampUsec = 6, Version = 2\<rparr>\<rparr>,
      unread = [not_found 7 3], slept = 1\<rparr>"
proof -
  let ?quiet = "[not_found 5 1, not_found 6 2, not_found 7 3]"
  let ?script = "[not_found 5 1, found ''abc'' ''executed'' 6 2, not_found 7 3]"
  let ?txn = "Some (Some \<lparr>Transaction = \<lparr>Signature = ''abc''\<rparr>, VmStatus = \<lparr>Type = ''executed''\<rparr>\<rparr>)"
  let ?c' = "\<lparr>chainID = 2, last' = \<lparr>TimestampUsec = 6, Version = 2\<rparr>\<rparr>"
  have run: "WaitForTransaction (NewWithJsonRpcClient 2) ''addr'' 3 ''abc'' 1000 1000000000
       ?quiet =
     \<lparr>returned = Some (None, Some (NotFoundWithinTimeout 1000000000)),
      client_after = ?c', unread = [not_found 7 3], slept = 2\<rparr>"
    by code_simp
  have r: "reaches_poll (NewWithJsonRpcClient 2) ''addr'' 3 1000 1000000000 ?script 1"
    by (simp add: run_simps)
  have g: "GetAccountTransaction
      (after_polls (NewWithJsonRpcClient 2) ''addr'' 3 (take 1 ?script))
      ''addr'' 3 True (?script ! 1) = ((?txn, None), ?c')"
    by (simp add: run_simps)
  note quiet = WaitForTransaction_timed_out
    [where c = "NewWithJsonRpcClient 2" and address = "''addr''" and seq = 3
      and signature = "''abc''" and expirationTimeSec = 1000 and timeout = 1000000000
      and script = ?quiet and t = 1000000000, THEN conjunct1, THEN mp]
  note ends = WaitForTransaction_timed_out
    [where c = "NewWithJsonRpcClient 2" and address = "''addr''" and seq = 3
      and signature = "''abc''" and expirationTimeSec = 1000 and timeout = 1000000000
      and script = ?script and k = 1 and txn = ?txn and c' = ?c',
      THEN conjunct2, THEN mp, THEN conjunct1]
  have "returned (WaitForTransaction (NewWithJsonRpcClient 2) ''addr'' 3 ''abc'' 1000 1000000000
       ?quiet) = Some (None, Some (NotFoundWithinTimeout 1000000000))"
    by (simp add: run)
  from quiet [OF this] run ends [OF conjI [OF r conjI [OF g]]]
  show ?thesis
    by (simp add: deref_def)
qed

section \<open>The expiration test in 64 bits\<close>

lemma wrap_threshold:
  assumes "(2 ^ 64 - 1) div 1000000 < (n::nat)"
  shows "2 ^ 64 \<le> n * 1000000"
proof -
  from assms have "18446744073710 \<le> n"
    by simp
  then have "18446744073710 * 1000000 \<le> n * 1000000"
    by (rule mult_le_mono1)
  moreover have "(2::nat) ^ 64 \<le> 18446744073710 * 1000000"
    by simp
  ultimately show ?thesis
    by (rule order_trans [rotated])
qed

text \<open>
  Claim C10. The product \<open>expirationTimeSec * 1000000\<close> of the expiration test is taken
  modulo \<open>2 ^ 64\<close>. For every \<open>expirationTimeSec\<close> above \<open>(2 ^ 64 - 1) div 1000000\<close> it is
  smaller than the product of the numbers, so the test compares the stored timestamp with
  the wrapped value; and there are an expiration and a client for which the test holds
  although the expiration, in microseconds, lies after the stored timestamp.
\<close>

theorem expired_wraps_around:
  "((2 ^ 64 - 1) div 1000000 < unat expirationTimeSec \<longrightarrow>
      unat (expirationTimeSec * 1000000) = unat expirationTimeSec * 1000000 mod 2 ^ 64 \<and>
      unat (expirationTimeSec * 1000000) < unat expirationTimeSec * 1000000)
   \<and> (expired expirationTimeSec c \<longleftrightarrow>
        unat expirationTimeSec * 1000000 mod 2 ^ 64 \<le> unat (TimestampUsec (last' c)))
   \<and> (\<exists>e c'. unat (TimestampUsec (last' c')) < unat e * 1000000 \<and> expired e c')"
proof -
  have m: "unat (expirationTimeSec * 1000000) = unat expirationTimeSec * 1000000 mod 2 ^ 64"
    by (simp add: unat_word_ariths)
  have "unat (expirationTimeSec * 1000000) < unat expirationTimeSec * 1000000"
    if "(2 ^ 64 - 1) div 1000000 < unat expirationTimeSec"
  proof -
    have "unat expirationTimeSec * 1000000 mod 2 ^ 64 < (2::nat) ^ 64"
      by (rule mod_less_divisor) simp
    also have "\<dots> \<le> unat expirationTimeSec * 1000000"
      by (rule wrap_threshold [OF that])
    finally show ?thesis
      by (simp only: m)
  qed
  moreover have "expired expirationTimeSec c \<longleftrightarrow>
        unat expirationTimeSec * 1000000 mod 2 ^ 64 \<le> unat (TimestampUsec (last' c))"
    by (simp only: expired_def LastResponseLedgerState_def word_le_nat_alt m)
  moreover have "unat (TimestampUsec (last' far_seen)) < unat (18446744073710 :: uint64) * 1000000
      \<and> expired 18446744073710 far_seen"
    by (simp add: far_seen_def expired_def LastResponseLedgerState_def)
  then have "\<exists>e c'. unat (TimestampUsec (last' c')) < unat e * 1000000 \<and> expired e c'"
    by blast
  ultimately show ?thesis
    using m by blast
qed

text \<open>
  The expiration 18446744073710 seconds lies hundreds of thousands of years ahead; times
  1000000 it wraps to 448384, and the wait reports a transaction as expired at its first
  poll against a timestamp of 2020.
\<close>

theorem expired_wraps_around_witness:
  "unat (18446744073710 * 1000000 :: uint64) = 448384
   \<and> unat (18446744073710 * 1000000 :: uint64) < unat (18446744073710 :: uint64) * 1000000
   \<and> expired 18446744073710 far_seen
   \<and> returned (WaitForTransaction (NewWithJsonRpcClient 2) ''addr'' 3 ''abc'' 18446744073710
         5000000000 [not_found 1600000000000000 1]) = Some (None, Some TransactionExpired)"
proof -
  have run: "returned (WaitForTransaction (NewWithJsonRpcClient 2) ''addr'' 3 ''abc''
      18446744073710 5000000000 [not_found 1600000000000000 1]) =
      Some (None, Some TransactionExpired)"
    by code_simp
  have h: "(2 ^ 64 - 1) div 1000000 < unat (18446744073710 :: uint64)"
    by simp
  from expired_wraps_around [of 18446744073710 far_seen, THEN conjunct1, THEN mp, OF h]
    expired_wraps_around [of 18446744073710 far_seen, THEN conjunct2, THEN conjunct1]
    run
  show ?thesis
    by (simp add: far_seen_def)
qed

section \<open>The methods of the interface and the stored state\<close>

lemma WaitForTransaction_le:
  "state_le (last' c)
     (last' (client_after
        (WaitForTransaction c address seq signature expirationTimeSec timeout script)))"
  by (simp add: WaitForTransaction_def WaitLoop_le)

lemma invoke_guarded_le:
  "guarded iv \<Longrightarrow> state_le (last' c) (last' (invoke iv c))"
  by (cases iv)
    (simp_all add: GetCurrencies_client GetMetadata_client GetMetadataByVersion_client
      GetAccount_client GetAccountTransaction_client GetAccountTransactions_client
      GetTransactions_client GetEvents_client Submit_client call_le WaitForTransaction_le
      state_le_refl)

lemma run_guarded_le:
  "list_all guarded ivs \<Longrightarrow> state_le (last' c) (last' (run c ivs))"
proof (induction ivs arbitrary: c)
  case Nil
  then show ?case by (simp add: state_le_refl)
next
  case (Cons iv ivs)
  then have "state_le (last' c) (last' (invoke iv c))"
    and "state_le (last' (invoke iv c)) (last' (run (invoke iv c) ivs))"
    by (simp_all add: invoke_guarded_le)
  then show ?case
    by (simp add: state_le_trans)
qed

text \<open>
  Claim C5, as amended. \<^verbatim>\<open>UpdateLastResponseLedgerState\<close> is a method of the interface
  \<^verbatim>\<open>Client\<close> and stores its argument whatever the stored state is. Every other method
  of the interface leaves a stored state that is at least the one it found, in version
  and in timestamp; so does every sequence of invocations of those methods.
\<close>

theorem guarded_run_monotone:
  "(list_all guarded ivs \<longrightarrow> state_le (last' c) (last' (run c ivs)))
   \<and> invoke (CallUpdateLastResponseLedgerState state) c = c\<lparr>last' := state\<rparr>"
  by (simp add: run_guarded_le UpdateLastResponseLedgerState_def)

text \<open>
  The claim as it is written, that no method of the interface replaces the stored state by
  one with a smaller version or timestamp, fails: a client that has seen version 5 at
  timestamp 100 from the server stores version 0 and timestamp 0 after
  \<^verbatim>\<open>UpdateLastResponseLedgerState(LedgerState{})\<close>.
\<close>

theorem UpdateLastResponseLedgerState_goes_back:
  "run (NewWithJsonRpcClient 2) [CallGetMetadata (not_found 100 5)] = seen_100_5
   \<and> invoke (CallUpdateLastResponseLedgerState \<lparr>TimestampUsec = 0, Version = 0\<rparr>
        :: Transaction invocation) seen_100_5 =
       \<lparr>chainID = 2, last' = \<lparr>TimestampUsec = 0, Version = 0\<rparr>\<rparr>
   \<and> \<not> state_le (last' seen_100_5)
         (last' (invoke (CallUpdateLastResponseLedgerState \<lparr>TimestampUsec = 0, Version = 0\<rparr>
            :: Transaction invocation) seen_100_5))"
  by (simp add: seen_100_5_def UpdateLastResponseLedgerState_def state_le_def
      GetMetadata_def call_def validateChainID_def validate_cases NewWithJsonRpcClient_def
      not_found_def)

text \<open>
  A lifetime with a stale answer in it (timestamp 90 after 100, and 150 after 200): the
  stale answers change nothing, the fresh ones advance the state.
\<close>

theorem guarded_run_monotone_witness:
  "run (NewWithJsonRpcClient 2)
     [CallGetMetadata (not_found 100 5), CallGetAccount ''a'' (not_found 90 5),
      CallWaitForTransaction ''addr'' 3 ''abc'' 1000 5000000000 [found ''abc'' ''executed'' 200 6],
      CallLastResponseLedgerState, CallSubmit ''data'' (not_found 150 7)] =
     \<lparr>chainID = 2, last' = \<lparr>TimestampUsec = 200, Version = 6\<rparr>\<rparr>
   \<and> state_le (last' (NewWithJsonRpcClient 2))
       (last' (run (NewWithJsonRpcClient 2)
         [CallGetMetadata (not_found 100 5), CallGetAccount ''a'' (not_found 90 5),
          CallWaitForTransaction ''addr'' 3 ''abc'' 1000 5000000000
            [found ''abc'' ''executed'' 200 6],
          CallLastResponseLedgerState, CallSubmit ''data'' (not_found 150 7)]))"
proof -
  let ?ivs = "[CallGetMetadata (not_found 100 5), CallGetAccount ''a'' (not_found 90 5),
      CallWaitForTransaction ''addr'' 3 ''abc'' 1000 5000000000 [found ''abc'' ''executed'' 200 6],
      CallLastResponseLedgerState, CallSubmit ''data'' (not_found 150 7)]"
  have end_state: "run (NewWithJsonRpcClient 2) ?ivs =
      \<lparr>chainID = 2, last' = \<lparr>TimestampUsec = 200, Version = 6\<rparr>\<rparr>"
    by code_simp
  have g: "list_all guarded ?ivs"
    by simp
  from guarded_run_monotone [of ?ivs "NewWithJsonRpcClient 2", THEN conjunct1, THEN mp, OF g]
    end_state
  show ?thesis
    by simp
qed

end
